theory Spec2Isabelle
  imports Complex_Main "HOL-Library.Multiset"
begin

section \<open>Data model (internal/models)\<close>

text \<open>
  A Go \<open>string\<close> that holds an identifier, a path or a digest is a \<open>string\<close>.
  Document text is handled by the chunker as \<open>[]rune\<close>; it is kept here as the list of
  its code points, and \<open>runes_of\<close> writes an ASCII literal as such a list.
  The components of a \<open>[]float32\<close> are read as the real numbers they denote.  Times are
  integers (nanoseconds).  The field \<open>ParsedAt\<close> of a document is set by no code of the
  repository and is left out.
\<close>

type_synonym rune = nat
type_synonym runes = "rune list"
type_synonym embedding = "real list"

definition runes_of :: "string \<Rightarrow> runes" where
  "runes_of s = map of_char s"

datatype meta_value = MString string | MInt int

record Document =
  doc_ID :: string
  doc_FilePath :: string
  doc_Content :: runes
  doc_Metadata :: "string \<rightharpoonup> string"
  doc_Hash :: string
  doc_FileModTime :: int

record Chunk =
  ID :: string
  DocumentID :: string
  Content :: runes
  Embedding :: embedding
  Metadata :: "(string \<times> meta_value) list"
  Index :: int

record RetrievalResult =
  res_Chunk :: Chunk
  Score :: real
  res_DocumentID :: string

text \<open>
  A Go \<open>error\<close> is modelled by its message.  A call ends in one of three ways: it
  returns a value with a \<open>nil\<close> error, it returns an error, or it panics.
\<close>

type_synonym error = string

datatype panic = SliceBoundsOutOfRange | IndexOutOfRange

datatype 'a result = Ok 'a | Err error | Panicked panic

section \<open>Vector store (internal/services/retriever/vectorstore.go)\<close>

text \<open>
  The \<open>chunks\<close> bucket of the database maps a key to a gob-encoded chunk.  A value on
  which \<open>Decode\<close> returns an error, such as the encoding of a value of another type, is
  \<open>Undecodable\<close>; \<open>AddChunks\<close> only ever writes \<open>Gob c\<close>.  A value that is cut short is
  not among the values of the model: \<open>bufferWrapper.Read\<close> never reports the end of its
  input, so on such a value \<open>Decode\<close> waits for more bytes and does not return.
  \<open>memory\<close> is the Go map \<open>map[string]*models.Chunk\<close>.
\<close>

datatype stored = Gob Chunk | Undecodable

record VectorStore =
  db :: "string \<rightharpoonup> stored"
  memory :: "string \<rightharpoonup> Chunk"

subsection \<open>Search\<close>

text \<open>
  The body of the loop \<open>for _, chunk := range vs.memory\<close>, run over the chunks in the
  order in which the runtime happens to deliver them.  \<open>sim\<close> stands for
  \<open>cosineSimilarity\<close>, which is set out below with its roundings, and a \<open>float64\<close>
  score is read as a real number.  The one score
  of the code that is no number, NaN, fails the test \<open>score >= threshold\<close> like a score
  below the threshold, so for a given threshold a \<open>sim\<close> with such a score in its place
  gives the same run.
\<close>

fun score_chunks :: "(embedding \<Rightarrow> embedding \<Rightarrow> real) \<Rightarrow> embedding \<Rightarrow> real \<Rightarrow> Chunk list
    \<Rightarrow> RetrievalResult list" where
  "score_chunks sim q threshold [] = []"
| "score_chunks sim q threshold (chunk # rest) =
     (if length (Embedding chunk) = 0 then score_chunks sim q threshold rest
      else let score = sim q (Embedding chunk) in
        if score \<ge> threshold
        then \<lparr>res_Chunk = chunk, Score = score, res_DocumentID = DocumentID chunk\<rparr>
               # score_chunks sim q threshold rest
        else score_chunks sim q threshold rest)"

text \<open>
  \<open>sort.Slice(results, less)\<close> with \<open>less i j = results[i].Score > results[j].Score\<close>:
  the library promises a permutation in which no later element is \<open>less\<close> than an
  earlier one, and nothing about the order of elements that compare equal.
\<close>

definition score_less :: "RetrievalResult \<Rightarrow> RetrievalResult \<Rightarrow> bool" where
  "score_less a b \<longleftrightarrow> Score a > Score b"

definition sort_Slice :: "RetrievalResult list \<Rightarrow> RetrievalResult list \<Rightarrow> bool" where
  "sort_Slice xs ys \<longleftrightarrow> mset ys = mset xs \<and> sorted_wrt (\<lambda>a b. \<not> score_less b a) ys"

text \<open>\<open>if len(results) > topK { results = results[:topK] }\<close>; slicing with a negative
  bound panics.\<close>

definition top_k :: "RetrievalResult list \<Rightarrow> int \<Rightarrow> RetrievalResult list result" where
  "top_k results topK =
     (if int (length results) > topK
      then (if topK < 0 then Panicked SliceBoundsOutOfRange else Ok (take (nat topK) results))
      else Ok results)"

text \<open>
  One run of \<open>Search\<close>.  The iteration order of a Go map is not specified, so a run
  picks some enumeration \<open>ks\<close> of the keys of the mirror.  The function ends with
  \<open>return results, nil\<close>, which is \<open>Ok results\<close>; it has no other \<open>return\<close>.
\<close>

inductive Search :: "(embedding \<Rightarrow> embedding \<Rightarrow> real) \<Rightarrow> VectorStore \<Rightarrow> embedding \<Rightarrow> int \<Rightarrow> real
    \<Rightarrow> RetrievalResult list result \<Rightarrow> bool" where
  Search_run:
    "distinct ks \<Longrightarrow> set ks = dom (memory vs) \<Longrightarrow>
     sort_Slice (score_chunks sim q threshold (map (\<lambda>k. the (memory vs k)) ks)) results \<Longrightarrow>
     Search sim vs q topK threshold (top_k results topK)"

text \<open>The chunks of the mirror, as a multiset (one per key).\<close>

definition mirror_chunks :: "VectorStore \<Rightarrow> Chunk multiset" where
  "mirror_chunks vs = image_mset (\<lambda>k. the (memory vs k)) (mset_set (dom (memory vs)))"

definition passes :: "(embedding \<Rightarrow> embedding \<Rightarrow> real) \<Rightarrow> embedding \<Rightarrow> real \<Rightarrow> Chunk \<Rightarrow> bool" where
  "passes sim q threshold c \<longleftrightarrow> Embedding c \<noteq> [] \<and> sim q (Embedding c) \<ge> threshold"

definition result_of :: "(embedding \<Rightarrow> embedding \<Rightarrow> real) \<Rightarrow> embedding \<Rightarrow> Chunk \<Rightarrow> RetrievalResult" where
  "result_of sim q c = \<lparr>res_Chunk = c, Score = sim q (Embedding c), res_DocumentID = DocumentID c\<rparr>"

subsection \<open>Mutations\<close>

text \<open>\<open>fmt.Sprintf("%s_%d", chunk.DocumentID, chunk.Index)\<close>.\<close>

fun decimal :: "nat \<Rightarrow> string" where
  "decimal n = (if n < 10 then [''0123456789'' ! n]
                else decimal (n div 10) @ [''0123456789'' ! (n mod 10)])"

definition format_int :: "int \<Rightarrow> string" where
  "format_int i = (if i < 0 then CHR ''-'' # decimal (nat (- i)) else decimal (nat i))"

definition chunk_key :: "string \<Rightarrow> int \<Rightarrow> string" where
  "chunk_key documentID index = documentID @ ''_'' @ format_int index"

text \<open>
  What the database does is not decided by the program: encoding a chunk, putting a key,
  deleting keys and committing a transaction can each fail.  A \<open>tx_env\<close> fixes, for one
  call of \<open>db.Update\<close>, which of these steps fail and with which error.
\<close>

record tx_env =
  encode_error :: "Chunk \<Rightarrow> error option"
  put_error :: "string \<Rightarrow> error option"
  delete_error :: "error option"
  commit_error :: "error option"

definition no_faults :: tx_env where
  "no_faults = \<lparr>encode_error = (\<lambda>_. None), put_error = (\<lambda>_. None),
                 delete_error = None, commit_error = None\<rparr>"

text \<open>
  The closure that \<open>AddChunks\<close> passes to \<open>db.Update\<close>: the loop over the batch, acting
  on the bucket of the open transaction and on \<open>vs.memory\<close>.  It returns the error of the
  closure, the bucket as the transaction sees it, and the mirror.
\<close>

fun AddChunks_tx :: "tx_env \<Rightarrow> Chunk list \<Rightarrow> (string \<rightharpoonup> stored) \<Rightarrow> (string \<rightharpoonup> Chunk)
    \<Rightarrow> error option \<times> (string \<rightharpoonup> stored) \<times> (string \<rightharpoonup> Chunk)" where
  "AddChunks_tx env [] bucket mem = (None, bucket, mem)"
| "AddChunks_tx env (c # rest) bucket mem =
     (let chunk = (if ID c = [] then c\<lparr>ID := chunk_key (DocumentID c) (Index c)\<rparr> else c) in
      case encode_error env chunk of
        Some e \<Rightarrow> (Some (''failed to encode chunk: '' @ e), bucket, mem)
      | None \<Rightarrow>
         (case put_error env (ID chunk) of
            Some e \<Rightarrow> (Some e, bucket, mem)
          | None \<Rightarrow> AddChunks_tx env rest (bucket(ID chunk \<mapsto> Gob chunk)) (mem(ID chunk \<mapsto> chunk))))"

text \<open>
  \<open>db.Update\<close> commits the bucket when the closure returns \<open>nil\<close> and the commit
  succeeds, and rolls the bucket back otherwise.  The mirror is not part of the
  transaction: what the closure wrote to it stays.
\<close>

definition AddChunks :: "tx_env \<Rightarrow> VectorStore \<Rightarrow> Chunk list \<Rightarrow> error option \<times> VectorStore" where
  "AddChunks env vs chunks =
     (case AddChunks_tx env chunks (db vs) (memory vs) of
        (Some e, bucket, mem) \<Rightarrow> (Some e, vs\<lparr>memory := mem\<rparr>)
      | (None, bucket, mem) \<Rightarrow>
          (case commit_error env of
             Some e \<Rightarrow> (Some e, vs\<lparr>memory := mem\<rparr>)
           | None \<Rightarrow> (None, vs\<lparr>db := bucket, memory := mem\<rparr>)))"

text \<open>
  \<open>DeleteByDocumentID\<close>: the cursor loop marks every key whose value decodes to a chunk
  of the document and deletes it from the mirror at once; the marked keys are then
  deleted from the bucket.  \<open>delete_error\<close> is the error of the first \<open>bucket.Delete\<close>
  that fails, if one does.
\<close>

definition to_delete :: "(string \<rightharpoonup> stored) \<Rightarrow> string \<Rightarrow> string \<Rightarrow> bool" where
  "to_delete bucket documentID k =
     (case bucket k of Some (Gob chunk) \<Rightarrow> DocumentID chunk = documentID | _ \<Rightarrow> False)"

definition DeleteByDocumentID :: "tx_env \<Rightarrow> VectorStore \<Rightarrow> string \<Rightarrow> error option \<times> VectorStore" where
  "DeleteByDocumentID env vs documentID =
     (let mem = (\<lambda>k. if to_delete (db vs) documentID k then None else memory vs k);
          bucket = (\<lambda>k. if to_delete (db vs) documentID k then None else db vs k)
      in if (\<exists>k. to_delete (db vs) documentID k) \<and> delete_error env \<noteq> None
         then (delete_error env, vs\<lparr>memory := mem\<rparr>)
         else (case commit_error env of
                 Some e \<Rightarrow> (Some e, vs\<lparr>memory := mem\<rparr>)
               | None \<Rightarrow> (None, vs\<lparr>db := bucket, memory := mem\<rparr>)))"

text \<open>
  \<open>loadIntoMemory\<close>, as \<open>NewVectorStore\<close> calls it on the empty mirror: every value of
  the bucket is decoded, and a value that does not decode ends the load with an error.
  \<open>NewVectorStore\<close> then returns no store.
\<close>

definition loadIntoMemory :: "(string \<rightharpoonup> stored) \<Rightarrow> error + (string \<rightharpoonup> Chunk)" where
  "loadIntoMemory bucket =
     (if Undecodable \<in> ran bucket then Inl ''gob: decode error''
      else Inr (\<lambda>k. case bucket k of Some (Gob chunk) \<Rightarrow> Some chunk | _ \<Rightarrow> None))"

definition NewVectorStore :: "(string \<rightharpoonup> stored) \<Rightarrow> error + VectorStore" where
  "NewVectorStore bucket =
     (case loadIntoMemory bucket of
        Inl e \<Rightarrow> Inl e
      | Inr mem \<Rightarrow> Inr \<lparr>db = bucket, memory = mem\<rparr>)"

text \<open>The mirror and the bucket hold the same chunks under the same keys.\<close>

definition mirror_consistent :: "VectorStore \<Rightarrow> bool" where
  "mirror_consistent vs \<longleftrightarrow> (\<forall>k. db vs k = map_option Gob (memory vs k))"

subsection \<open>Cosine similarity\<close>







section \<open>Chunker and embedding client (internal/services/context/embedder.go)\<close>

text \<open>The fields of the configuration that the chunker and the embedding client read.\<close>

record Config =
  Method :: string
  ChunkSize :: int
  ChunkOverlap :: int
  MinChunkSize :: int
  BatchSize :: int

text \<open>\<open>unicode.IsSpace\<close>, \<open>strings.TrimSpace\<close>, and \<open>len\<close> of a string, which counts the
  bytes of its UTF-8 encoding.\<close>

definition IsSpace :: "rune \<Rightarrow> bool" where
  "IsSpace r \<longleftrightarrow> r \<in> {0x09, 0x0A, 0x0B, 0x0C, 0x0D, 0x20, 0x85, 0xA0, 0x1680,
                      0x2028, 0x2029, 0x202F, 0x205F, 0x3000} \<or> (0x2000 \<le> r \<and> r \<le> 0x200A)"

definition TrimSpace :: "runes \<Rightarrow> runes" where
  "TrimSpace s = rev (dropWhile IsSpace (rev (dropWhile IsSpace s)))"

definition utf8_len :: "rune \<Rightarrow> nat" where
  "utf8_len r = (if r < 0x80 then 1 else if r < 0x800 then 2 else if r < 0x10000 then 3
                 else if r < 0x110000 then 4 else 3)"

definition len_bytes :: "runes \<Rightarrow> int" where
  "len_bytes s = int (sum_list (map utf8_len s))"

text \<open>\<open>xs[i:j]\<close> for \<open>0 \<le> i \<le> j \<le> len(xs)\<close>; the callers check the bounds, as the
  runtime does, and panic outside them.\<close>

definition slice :: "'a list \<Rightarrow> int \<Rightarrow> int \<Rightarrow> 'a list" where
  "slice xs i j = take (nat (j - i)) (drop (nat i) xs)"

text \<open>The chunk literal that \<open>chunkFixed\<close> and \<open>chunkRecursive\<close> build.\<close>

definition new_chunk :: "Document \<Rightarrow> runes \<Rightarrow> int \<Rightarrow> Chunk" where
  "new_chunk doc content idx =
     \<lparr>ID = [], DocumentID = doc_ID doc, Content = TrimSpace content, Embedding = [],
      Metadata = [(''source'', MString (doc_FilePath doc)), (''doc_id'', MString (doc_ID doc)),
                  (''chunk_idx'', MInt idx)],
      Index = idx\<rparr>"

text \<open>
  The loop of \<open>chunkFixed\<close>, with the loop variable \<open>i\<close> and the slice \<open>chunks\<close> as
  arguments.  The loop need not stop, so the result is an option: \<open>None\<close> is a run that
  never returns.  Go's \<open>int\<close> has 64 bits; the integers here are unbounded, which is
  the same as long as no sum leaves that range.
\<close>

partial_function (option) chunkFixed_loop ::
  "Document \<Rightarrow> runes \<Rightarrow> int \<Rightarrow> int \<Rightarrow> int \<Rightarrow> Chunk list \<Rightarrow> Chunk list result option" where
  "chunkFixed_loop doc runes csize overlap i chunks =
     (if i < int (length runes) then
        (let end0 = i + csize;
             end' = (if end0 > int (length runes) then int (length runes) else end0)
         in if i < 0 \<or> end' < i then Some (Panicked SliceBoundsOutOfRange)
            else (let chunks' = chunks @ [new_chunk doc (slice runes i end') (int (length chunks))]
                  in if end' \<ge> int (length runes) then Some (Ok chunks')
                     else chunkFixed_loop doc runes csize overlap (i + (csize - overlap)) chunks'))
      else Some (Ok chunks))"

definition chunkFixed :: "Document \<Rightarrow> runes \<Rightarrow> int \<Rightarrow> int \<Rightarrow> Chunk list result option" where
  "chunkFixed doc text csize overlap = chunkFixed_loop doc text csize overlap 0 []"

text \<open>
  The windows \<open>runes[i:end]\<close> that the loop cuts when it starts at \<open>i\<close> and advances by a
  positive stride \<open>st\<close>, before they are trimmed.  This function is not in the code; the
  proofs relate the loop to it.
\<close>

function windows_from :: "'a list \<Rightarrow> nat \<Rightarrow> nat \<Rightarrow> nat \<Rightarrow> 'a list list" where
  "windows_from rs sz st i =
     (if i < length rs \<and> 0 < st
      then take sz (drop i rs) # (if i + sz \<ge> length rs then [] else windows_from rs sz st (i + st))
      else [])"
  by pat_completeness auto
termination
  by (relation "measure (\<lambda>(rs, sz, st, i). length rs - i)") auto

declare windows_from.simps [simp del]

text \<open>\<open>strings.Split(text, "\n\n")\<close>, \<open>strings.Fields\<close>, \<open>strings.Join\<close> and
  \<open>splitSentences\<close>; the first argument of the helpers is the piece being read.\<close>

fun Split_from :: "runes \<Rightarrow> runes \<Rightarrow> runes list" where
  "Split_from cur [] = [cur]"
| "Split_from cur [r] = [cur @ [r]]"
| "Split_from cur (r # r' # rest) =
     (if r = 0x0A \<and> r' = 0x0A then cur # Split_from [] rest
      else Split_from (cur @ [r]) (r' # rest))"

fun Fields_from :: "runes \<Rightarrow> runes \<Rightarrow> runes list" where
  "Fields_from cur [] = (if cur = [] then [] else [cur])"
| "Fields_from cur (r # rest) =
     (if IsSpace r then (if cur = [] then Fields_from [] rest else cur # Fields_from [] rest)
      else Fields_from (cur @ [r]) rest)"

fun Join :: "runes list \<Rightarrow> runes \<Rightarrow> runes" where
  "Join [] sep = []"
| "Join [w] sep = w"
| "Join (w # ws) sep = w @ sep @ Join ws sep"

fun splitSentences_from :: "runes \<Rightarrow> runes \<Rightarrow> runes list" where
  "splitSentences_from cur [] = (if len_bytes cur > 0 then [TrimSpace cur] else [])"
| "splitSentences_from cur (r # rest) =
     (if (r = 0x2E \<or> r = 0x21 \<or> r = 0x3F) \<and> rest \<noteq> [] \<and> IsSpace (hd rest)
      then TrimSpace (cur @ [r]) # splitSentences_from [] rest
      else splitSentences_from (cur @ [r]) rest)"

definition splitSentences :: "runes \<Rightarrow> runes list" where
  "splitSentences text = splitSentences_from [] text"

text \<open>Go's integer division truncates towards zero.\<close>

definition quot :: "int \<Rightarrow> int \<Rightarrow> int" where
  "quot a b = sgn a * sgn b * (\<bar>a\<bar> div \<bar>b\<bar>)"

text \<open>
  \<open>chunkRecursive\<close>.  Its state is the triple of \<open>chunks\<close>, the contents of the builder
  \<open>currentChunk\<close>, and \<open>chunkIdx\<close>; \<open>add_sentence\<close> is the body of the loop over the
  sentences of a long paragraph and \<open>add_paragraph\<close> the body of the loop over the
  paragraphs.
\<close>

definition add_sentence :: "Document \<Rightarrow> int \<Rightarrow> int \<Rightarrow> Chunk list \<times> runes \<times> int \<Rightarrow> runes
    \<Rightarrow> Chunk list \<times> runes \<times> int" where
  "add_sentence doc csize overlap st sent =
     (case st of (chunks, current, chunkIdx) \<Rightarrow>
        (case (if len_bytes current + len_bytes sent > csize \<and> len_bytes current > 0
               then (let words = Fields_from [] current;
                         overlapWords0 = quot overlap 10;
                         overlapWords = (if overlapWords0 > int (length words)
                                         then int (length words) else overlapWords0)
                     in (chunks @ [new_chunk doc current chunkIdx],
                         (if overlapWords > 0
                          then Join (drop (length words - nat overlapWords) words) [0x20] @ [0x20]
                          else []),
                         chunkIdx + 1))
               else (chunks, current, chunkIdx)) of
           (chunks', current', chunkIdx') \<Rightarrow> (chunks', current' @ sent @ [0x20], chunkIdx')))"

definition add_paragraph :: "Document \<Rightarrow> int \<Rightarrow> int \<Rightarrow> Chunk list \<times> runes \<times> int \<Rightarrow> runes
    \<Rightarrow> Chunk list \<times> runes \<times> int" where
  "add_paragraph doc csize overlap st para0 =
     (let para = TrimSpace para0 in
      if para = [] then st
      else if len_bytes para > csize
      then foldl (add_sentence doc csize overlap) st (splitSentences para)
      else (case st of (chunks, current, chunkIdx) \<Rightarrow>
        (case (if len_bytes current + len_bytes para > csize \<and> len_bytes current > 0
               then (chunks @ [new_chunk doc current chunkIdx], [], chunkIdx + 1)
               else (chunks, current, chunkIdx)) of
           (chunks', current', chunkIdx') \<Rightarrow> (chunks', current' @ para @ [0x0A, 0x0A], chunkIdx'))))"

definition chunkRecursive :: "Document \<Rightarrow> runes \<Rightarrow> int \<Rightarrow> int \<Rightarrow> Chunk list" where
  "chunkRecursive doc text csize overlap =
     (case foldl (add_paragraph doc csize overlap) ([], [], 0) (Split_from [] text) of
        (chunks, current, chunkIdx) \<Rightarrow>
          if len_bytes current > 0 then chunks @ [new_chunk doc current chunkIdx] else chunks)"

definition ChunkDocument :: "Config \<Rightarrow> Document \<Rightarrow> Chunk list result option" where
  "ChunkDocument cfg doc =
     (let text = doc_Content doc in
      case (if Method cfg = ''fixed'' then chunkFixed doc text (ChunkSize cfg) (ChunkOverlap cfg)
            else if Method cfg = ''recursive''
            then Some (Ok (chunkRecursive doc text (ChunkSize cfg) (ChunkOverlap cfg)))
            else chunkFixed doc text (ChunkSize cfg) (ChunkOverlap cfg)) of
        None \<Rightarrow> None
      | Some (Ok chunks) \<Rightarrow>
          Some (Ok (filter (\<lambda>chunk. len_bytes (TrimSpace (Content chunk)) \<ge> MinChunkSize cfg) chunks))
      | Some (Err e) \<Rightarrow> Some (Err e)
      | Some (Panicked p) \<Rightarrow> Some (Panicked p))"

text \<open>
  \<open>CreateEmbeddings\<close>.  \<open>provider\<close> is \<open>getEmbeddings\<close>: the answer of the embedding
  service to a batch of texts.  \<open>assign_embeddings\<close> is the inner loop
  \<open>chunks[i+j].Embedding = emb\<close>, which panics when an index leaves the slice.
\<close>

fun assign_embeddings :: "Chunk list \<Rightarrow> nat \<Rightarrow> embedding list \<Rightarrow> Chunk list" where
  "assign_embeddings chunks i [] = chunks"
| "assign_embeddings chunks i (emb # embs) =
     assign_embeddings (chunks[i := (chunks ! i)\<lparr>Embedding := emb\<rparr>]) (Suc i) embs"

partial_function (option) CreateEmbeddings_loop ::
  "(runes list \<Rightarrow> error + embedding list) \<Rightarrow> int \<Rightarrow> runes list \<Rightarrow> int \<Rightarrow> Chunk list
     \<Rightarrow> Chunk list result option" where
  "CreateEmbeddings_loop provider batchSize texts i chunks =
     (if i < int (length texts) then
        (let end0 = i + batchSize;
             end' = (if end0 > int (length texts) then int (length texts) else end0)
         in if i < 0 \<or> end' < i then Some (Panicked SliceBoundsOutOfRange)
            else (case provider (slice texts i end') of
                    Inl err \<Rightarrow> Some (Err (''failed to get embeddings: '' @ err))
                  | Inr embeddings \<Rightarrow>
                      if nat i + length embeddings > length chunks
                      then Some (Panicked IndexOutOfRange)
                      else CreateEmbeddings_loop provider batchSize texts (i + batchSize)
                             (assign_embeddings chunks (nat i) embeddings)))
      else Some (Ok chunks))"

definition CreateEmbeddings ::
  "(runes list \<Rightarrow> error + embedding list) \<Rightarrow> Config \<Rightarrow> Chunk list \<Rightarrow> Chunk list result option" where
  "CreateEmbeddings provider cfg chunks =
     CreateEmbeddings_loop provider (BatchSize cfg) (map Content chunks) 0 chunks"

section \<open>Files, digests and the parser (utils/hash.go, context/parser.go)\<close>

text \<open>
  What lies outside the program, as one call of \<open>IndexFile\<close> finds it: the files of the
  context folder, the SHA-256 digest (in hex), the PDF library, the embedding service,
  and whether writing the cache directory fails and where.  A text file holds UTF-8
  text and is kept as the list of its code points, like the text of a document;
  \<open>sha256_hex\<close> is the digest of its bytes.  Of a PDF file only the digest and the size
  of its contents are read here, its pages come from the library.  Reading a file that
  can be opened does not fail.
\<close>

record File =
  contents :: runes
  ModTime :: int

datatype cache_fault =
  NoFault | MkdirAllFails | CreateDocFails | EncodeDocFails | CreateChunksFails | EncodeChunksFails

text \<open>
  A page of a PDF file as the library \<open>ledongthuc/pdf\<close> presents it: a null page, a page
  whose text cannot be extracted, or a page with its plain text.  \<open>pdf_Open\<close> is
  \<open>pdf.Open\<close> followed by the pages \<open>1 .. NumPage()\<close>.
\<close>

datatype pdf_page = NullPage | NoPlainText error | PlainText runes

record World =
  files :: "string \<rightharpoonup> File"
  sha256_hex :: "runes \<Rightarrow> string"
  pdf_Open :: "string \<Rightarrow> error + pdf_page list"
  getEmbeddings :: "runes list \<Rightarrow> error + embedding list"
  cache_fault :: cache_fault

text \<open>\<open>utils.FileHash\<close>.\<close>

definition FileHash :: "World \<Rightarrow> string \<Rightarrow> error + string" where
  "FileHash w filePath =
     (case files w filePath of
        None \<Rightarrow> Inl (''failed to open file: open '' @ filePath @ '': no such file or directory'')
      | Some f \<Rightarrow> Inr (sha256_hex w (contents f)))"

text \<open>
  \<open>filepath.Ext\<close> and \<open>filepath.Base\<close> with the separator \<open>/\<close>, and \<open>strings.ToLower\<close> on
  the letters of ASCII; paths are ASCII strings.  \<open>Ext_scan\<close> is the loop of
  \<open>filepath.Ext\<close>, which walks from the end of the path to the last dot of its last
  element.
\<close>

fun Ext_scan :: "string \<Rightarrow> string \<Rightarrow> string" where
  "Ext_scan [] suffix = []"
| "Ext_scan (c # before) suffix =
     (if c = CHR ''/'' then []
      else if c = CHR ''.'' then c # suffix
      else Ext_scan before (c # suffix))"

definition Ext :: "string \<Rightarrow> string" where
  "Ext path = Ext_scan (rev path) []"

definition Base :: "string \<Rightarrow> string" where
  "Base path =
     (if path = [] then ''.''
      else (let stripped = rev (dropWhile (\<lambda>c. c = CHR ''/'') (rev path));
                name = rev (takeWhile (\<lambda>c. c \<noteq> CHR ''/'') (rev stripped))
            in if name = [] then ''/'' else name))"

definition ToLower :: "string \<Rightarrow> string" where
  "ToLower s =
     map (\<lambda>c. case map_of (zip ''ABCDEFGHIJKLMNOPQRSTUVWXYZ'' ''abcdefghijklmnopqrstuvwxyz'') c of
                 Some l \<Rightarrow> l
               | None \<Rightarrow> c) s"

text \<open>
  \<open>parseText\<close> reads the file with a \<open>bufio.Scanner\<close>, whose split function is
  \<open>bufio.ScanLines\<close>: the tokens are the lines of the file, a last line without a
  newline included if it is not empty, each without its newline and without one
  carriage return before it.  The scanner gives up with \<open>ErrTooLong\<close> at a line that
  does not fit its buffer of \<open>MaxScanTokenSize\<close> bytes, and \<open>parseText\<close> then returns
  that error and no text.  Every line is written back with a newline after it.
\<close>

fun scan_lines :: "runes \<Rightarrow> runes \<Rightarrow> runes list" where
  "scan_lines line [] = (if line = [] then [] else [line])"
| "scan_lines line (r # rs) =
     (if r = 10 then line # scan_lines [] rs else scan_lines (line @ [r]) rs)"

definition dropCR :: "runes \<Rightarrow> runes" where
  "dropCR line = (if line \<noteq> [] \<and> last line = 13 then butlast line else line)"

definition MaxScanTokenSize :: int where
  "MaxScanTokenSize = 64 * 1024"

definition parseText :: "World \<Rightarrow> string \<Rightarrow> error + runes" where
  "parseText w filePath =
     (case files w filePath of
        None \<Rightarrow> Inl (''open '' @ filePath @ '': no such file or directory'')
      | Some file \<Rightarrow>
          (let lines = scan_lines [] (contents file)
           in if list_ex (\<lambda>line. len_bytes line \<ge> MaxScanTokenSize) lines
              then Inl ''bufio.Scanner: token too long''
              else Inr (concat (map (\<lambda>line. dropCR line @ [10]) lines))))"

text \<open>\<open>parsePDF\<close>: the text of every page that has one, each followed by a newline.\<close>

definition parsePDF :: "World \<Rightarrow> string \<Rightarrow> error + runes" where
  "parsePDF w filePath =
     (case pdf_Open w filePath of
        Inl err \<Rightarrow> Inl (''failed to open PDF: '' @ err)
      | Inr pages \<Rightarrow>
          Inr (concat (map (\<lambda>page. case page of PlainText t \<Rightarrow> t @ [10] | _ \<Rightarrow> []) pages)))"

text \<open>\<open>ParseDocument\<close>; \<open>info\<close> is the result of \<open>os.Stat\<close>.\<close>

definition ParseDocument :: "World \<Rightarrow> string \<Rightarrow> error + Document" where
  "ParseDocument w filePath =
     (let ext = ToLower (Ext filePath) in
      case (if ext = ''.pdf'' then Some (parsePDF w filePath)
            else if ext = ''.txt'' \<or> ext = ''.md'' then Some (parseText w filePath)
            else None) of
        None \<Rightarrow> Inl (''unsupported file type: '' @ ext)
      | Some (Inl err) \<Rightarrow> Inl err
      | Some (Inr content) \<Rightarrow>
          (case files w filePath of
             None \<Rightarrow> Inl (''stat '' @ filePath @ '': no such file or directory'')
           | Some info \<Rightarrow>
               (case FileHash w filePath of
                  Inl err \<Rightarrow> Inl err
                | Inr hash \<Rightarrow>
                    Inr \<lparr>doc_ID = hash, doc_FilePath = filePath, doc_Content = content,
                         doc_Metadata = [''filename'' \<mapsto> Base filePath, ''extension'' \<mapsto> ext,
                                         ''size'' \<mapsto> format_int (len_bytes (contents info))],
                         doc_Hash = hash, doc_FileModTime = ModTime info\<rparr>)))"

section \<open>Indexer (internal/services/context/indexer.go)\<close>

text \<open>
  The state of the indexer: the map \<open>docCache\<close>, and the cache directory, whose files
  \<open><id>.doc.gob\<close> and \<open><id>.chunks.gob\<close> are kept as two maps from \<open><id>\<close>.  A file that
  was created but not written completely cannot be decoded and is read like a missing
  file, so it is kept as a missing one.  The three counters are not in the code: they
  count the calls of \<open>ParseDocument\<close>, \<open>ChunkDocument\<close> and \<open>CreateEmbeddings\<close>.
\<close>

record Indexer =
  docCache :: "string \<rightharpoonup> Document"
  cache_docs :: "string \<rightharpoonup> Document"
  cache_chunks :: "string \<rightharpoonup> Chunk list"
  parse_calls :: nat
  chunk_calls :: nat
  embed_calls :: nat

definition loadCachedDocument :: "World \<Rightarrow> Indexer \<Rightarrow> string \<Rightarrow> Document option" where
  "loadCachedDocument w idx filePath =
     (case FileHash w filePath of
        Inl e \<Rightarrow> None
      | Inr hash \<Rightarrow> cache_docs idx hash)"

definition loadCachedChunks :: "Indexer \<Rightarrow> string \<Rightarrow> Chunk list result" where
  "loadCachedChunks idx docID =
     (case cache_chunks idx docID of
        None \<Rightarrow> Err ''open: no such file or directory''
      | Some chunks \<Rightarrow> Ok chunks)"

definition needsReindex :: "World \<Rightarrow> Indexer \<Rightarrow> string \<Rightarrow> Document option \<times> bool" where
  "needsReindex w idx filePath =
     (case (case docCache idx filePath of
              Some d \<Rightarrow> Some d
            | None \<Rightarrow> loadCachedDocument w idx filePath) of
        None \<Rightarrow> (None, True)
      | Some cached \<Rightarrow>
          (case files w filePath of
             None \<Rightarrow> (None, True)
           | Some info \<Rightarrow>
               (case FileHash w filePath of
                  Inl e \<Rightarrow> (None, True)
                | Inr currentHash \<Rightarrow>
                    if currentHash \<noteq> doc_Hash cached then (Some cached, True)
                    else if ModTime info > doc_FileModTime cached then (Some cached, True)
                    else (Some cached, False))))"

definition cacheDocument :: "World \<Rightarrow> Indexer \<Rightarrow> Document \<Rightarrow> Chunk list \<Rightarrow> error option \<times> Indexer" where
  "cacheDocument w idx doc chunks =
     (case cache_fault w of
        MkdirAllFails \<Rightarrow> (Some ''mkdir failed'', idx)
      | CreateDocFails \<Rightarrow> (Some ''create failed'', idx)
      | EncodeDocFails \<Rightarrow>
          (Some ''encode failed'', idx\<lparr>cache_docs := (cache_docs idx)(doc_ID doc := None)\<rparr>)
      | CreateChunksFails \<Rightarrow>
          (Some ''create failed'', idx\<lparr>cache_docs := (cache_docs idx)(doc_ID doc \<mapsto> doc)\<rparr>)
      | EncodeChunksFails \<Rightarrow>
          (Some ''encode failed'',
           idx\<lparr>cache_docs := (cache_docs idx)(doc_ID doc \<mapsto> doc),
               cache_chunks := (cache_chunks idx)(doc_ID doc := None)\<rparr>)
      | NoFault \<Rightarrow>
          (None,
           idx\<lparr>cache_docs := (cache_docs idx)(doc_ID doc \<mapsto> doc),
               cache_chunks := (cache_chunks idx)(doc_ID doc \<mapsto> chunks)\<rparr>))"

text \<open>\<open>IndexFile\<close> returns the result of the call and the indexer after it; \<open>None\<close> is a
  call that never returns.\<close>

definition IndexFile ::
  "World \<Rightarrow> Config \<Rightarrow> Indexer \<Rightarrow> string \<Rightarrow> bool \<Rightarrow> (Chunk list result \<times> Indexer) option" where
  "IndexFile w cfg idx filePath forceReindex =
     (case (if forceReindex then None
            else (case needsReindex w idx filePath of
                    (Some cached, False) \<Rightarrow> Some cached
                  | _ \<Rightarrow> None)) of
        Some cached \<Rightarrow> Some (loadCachedChunks idx (doc_ID cached), idx)
      | None \<Rightarrow>
         (let idx1 = idx\<lparr>parse_calls := parse_calls idx + 1\<rparr> in
          case ParseDocument w filePath of
            Inl e \<Rightarrow> Some (Err (''failed to parse document: '' @ e), idx1)
          | Inr doc \<Rightarrow>
             (let idx2 = idx1\<lparr>chunk_calls := chunk_calls idx1 + 1\<rparr> in
              case ChunkDocument cfg doc of
                None \<Rightarrow> None
              | Some (Panicked p) \<Rightarrow> Some (Panicked p, idx2)
              | Some (Err e) \<Rightarrow> Some (Err e, idx2)
              | Some (Ok chunks0) \<Rightarrow>
                 if length chunks0 = 0 then Some (Err ''no chunks created from document'', idx2)
                 else
                  (let idx3 = idx2\<lparr>embed_calls := embed_calls idx2 + 1\<rparr> in
                   case CreateEmbeddings (getEmbeddings w) cfg chunks0 of
                     None \<Rightarrow> None
                   | Some (Panicked p) \<Rightarrow> Some (Panicked p, idx3)
                   | Some (Err e) \<Rightarrow> Some (Err (''failed to create embeddings: '' @ e), idx3)
                   | Some (Ok chunks) \<Rightarrow>
                      (case cacheDocument w idx3 doc chunks of
                         (err, idx4) \<Rightarrow>
                           Some (Ok chunks, idx4\<lparr>docCache := (docCache idx4)(filePath \<mapsto> doc)\<rparr>))))))"

section \<open>Watcher and orchestrator (watcher.go, orchestrator.go)\<close>

text \<open>
  The indexer and the store of the retriever, as the orchestrator holds them.
  \<open>handleFileUpdate\<close> is the callback that \<open>NewOrchestrator\<close> registers with the watcher;
  \<open>handleFileChange\<close> is what the watcher runs when the debounce timer of a path fires.
  Neither returns a value: an error is logged and the state is what the failed step left.
\<close>

record System =
  indexer :: Indexer
  store :: VectorStore

definition handleFileUpdate ::
  "World \<Rightarrow> Config \<Rightarrow> tx_env \<Rightarrow> System \<Rightarrow> string \<Rightarrow> System result option" where
  "handleFileUpdate w cfg env sys filePath =
     (case IndexFile w cfg (indexer sys) filePath True of
        None \<Rightarrow> None
      | Some (Panicked p, idx) \<Rightarrow> Some (Panicked p)
      | Some (Err e, idx) \<Rightarrow> Some (Ok (sys\<lparr>indexer := idx\<rparr>))
      | Some (Ok chunks, idx) \<Rightarrow>
          (case AddChunks env (store sys) chunks of
             (err, vs) \<Rightarrow> Some (Ok \<lparr>indexer = idx, store = vs\<rparr>)))"

definition handleFileChange ::
  "World \<Rightarrow> Config \<Rightarrow> tx_env \<Rightarrow> System \<Rightarrow> string \<Rightarrow> System result option" where
  "handleFileChange w cfg env sys filePath =
     (case IndexFile w cfg (indexer sys) filePath True of
        None \<Rightarrow> None
      | Some (Panicked p, idx) \<Rightarrow> Some (Panicked p)
      | Some (Err e, idx) \<Rightarrow> Some (Ok (sys\<lparr>indexer := idx\<rparr>))
      | Some (Ok chunks, idx) \<Rightarrow> handleFileUpdate w cfg env (sys\<lparr>indexer := idx\<rparr>) filePath)"

section \<open>Examples\<close>

subsection \<open>Example documents\<close>

text \<open>A document with a given text, as the chunker may be handed one.\<close>

definition doc_of :: "string \<Rightarrow> string \<Rightarrow> string \<Rightarrow> Document" where
  "doc_of path digest content =
     \<lparr>doc_ID = digest, doc_FilePath = path, doc_Content = runes_of content,
      doc_Metadata = Map.empty, doc_Hash = digest, doc_FileModTime = 0\<rparr>"

definition fixed_cfg :: "int \<Rightarrow> int \<Rightarrow> Config" where
  "fixed_cfg chunkSize chunkOverlap =
     \<lparr>Method = ''fixed'', ChunkSize = chunkSize, ChunkOverlap = chunkOverlap,
      MinChunkSize = 1, BatchSize = 8\<rparr>"


subsection \<open>Example stores\<close>

text \<open>
  A stand-in for the similarity function in the examples: the dot product.  On the
  vectors used below, whose entries are 0 and 1 with a single 1, it is the value the
  code computes (products, sums and square roots of 0 and 1 are exact).
\<close>

definition dot :: "embedding \<Rightarrow> embedding \<Rightarrow> real" where
  "dot a b = sum_list (map2 (*) a b)"

definition chunk_a :: Chunk where
  "chunk_a = \<lparr>ID = ''d1_0'', DocumentID = ''d1'', Content = runes_of ''alpha'',
     Embedding = [1, 0], Metadata = [], Index = 0\<rparr>"

definition chunk_b :: Chunk where
  "chunk_b = \<lparr>ID = ''d1_1'', DocumentID = ''d1'', Content = runes_of ''beta'',
     Embedding = [1, 0], Metadata = [], Index = 1\<rparr>"

definition chunk_c :: Chunk where
  "chunk_c = \<lparr>ID = ''d2_0'', DocumentID = ''d2'', Content = runes_of ''gamma'',
     Embedding = [0, 1], Metadata = [], Index = 0\<rparr>"

definition chunk_e :: Chunk where
  "chunk_e = \<lparr>ID = ''d2_1'', DocumentID = ''d2'', Content = runes_of ''delta'',
     Embedding = [], Metadata = [], Index = 1\<rparr>"

definition store_of :: "Chunk list \<Rightarrow> VectorStore" where
  "store_of cs = \<lparr>db = map_of (map (\<lambda>c. (ID c, Gob c)) cs),
                  memory = map_of (map (\<lambda>c. (ID c, c)) cs)\<rparr>"

subsection \<open>Example worlds\<close>

text \<open>SHA-256 at the file contents of the examples; these are the digests themselves.\<close>

definition sha256_table :: "runes \<Rightarrow> string" where
  "sha256_table b =
     (if b = runes_of ''old text''
      then ''c9fbd865f5b1419c9e65d4381bfee26fb252a303d4cdd689aed446bf252ca847''
      else if b = runes_of ''new text''
      then ''cb0208b0b1fa06bc59f85c8b2be1e45ff2ef6ddbf0cef02e9f276b8208ea48ab''
      else if b = runes_of ''ab cd''
      then ''b09c5477abec5b3275cc94f1884843b392d708547fe5861a4fbe400e2a64c5eb''
      else [])"

text \<open>An embedding service that answers every text with the vector \<open>(1, 0)\<close>, and one that
  fails on the batch that holds the text \<open>cd\<close> alone.\<close>

definition unit_provider :: "runes list \<Rightarrow> error + embedding list" where
  "unit_provider batch = Inr (map (\<lambda>_. [1, 0]) batch)"


text \<open>A context folder that holds the one file \<open>notes.txt\<close> with the given text, which
  ends without a newline.\<close>

definition world_of :: "string \<Rightarrow> (runes list \<Rightarrow> error + embedding list) \<Rightarrow> cache_fault \<Rightarrow> World" where
  "world_of content provider fault =
     \<lparr>files = [''notes.txt'' \<mapsto> \<lparr>contents = runes_of content, ModTime = 1\<rparr>],
      sha256_hex = sha256_table,
      pdf_Open = (\<lambda>path. Inl ''not a PDF file''),
      getEmbeddings = provider,
      cache_fault = fault\<rparr>"

text \<open>The document that \<open>ParseDocument\<close> makes of that file.\<close>

definition parsed :: "string \<Rightarrow> Document" where
  "parsed content =
     \<lparr>doc_ID = sha256_table (runes_of content), doc_FilePath = ''notes.txt'',
      doc_Content = runes_of content @ [10],
      doc_Metadata = [''filename'' \<mapsto> ''notes.txt'', ''extension'' \<mapsto> ''.txt'',
                      ''size'' \<mapsto> format_int (len_bytes (runes_of content))],
      doc_Hash = sha256_table (runes_of content), doc_FileModTime = 1\<rparr>"

text \<open>\<open>NewIndexer\<close> with an empty cache directory, and the orchestrator's state on a new
  database.\<close>

definition new_indexer :: Indexer where
  "new_indexer = \<lparr>docCache = Map.empty, cache_docs = Map.empty, cache_chunks = Map.empty,
                   parse_calls = 0, chunk_calls = 0, embed_calls = 0\<rparr>"

definition empty_store :: VectorStore where
  "empty_store = \<lparr>db = Map.empty, memory = Map.empty\<rparr>"

text \<open>A transaction whose commit fails, as on a full disk.\<close>

definition commit_fails :: tx_env where
  "commit_fails = no_faults\<lparr>commit_error := Some ''write error''\<rparr>"

definition new_system :: System where
  "new_system = \<lparr>indexer = new_indexer, store = empty_store\<rparr>"

text \<open>
  The chunk that indexing \<open>notes.txt\<close> with the given content puts into the store (the text
  is shorter than one window), and the store that holds the chunks of two versions of
  the file.
\<close>

definition stored_chunk :: "string \<Rightarrow> Chunk" where
  "stored_chunk content =
     \<lparr>ID = sha256_table (runes_of content) @ ''_0'', DocumentID = sha256_table (runes_of content),
      Content = runes_of content, Embedding = [1, 0],
      Metadata = [(''source'', MString ''notes.txt''),
                  (''doc_id'', MString (sha256_table (runes_of content))),
                  (''chunk_idx'', MInt 0)],
      Index = 0\<rparr>"

definition two_version_store :: VectorStore where
  "two_version_store =
     \<lparr>db = [ID (stored_chunk ''old text'') \<mapsto> Gob (stored_chunk ''old text''),
            ID (stored_chunk ''new text'') \<mapsto> Gob (stored_chunk ''new text'')],
      memory = [ID (stored_chunk ''old text'') \<mapsto> stored_chunk ''old text'',
                ID (stored_chunk ''new text'') \<mapsto> stored_chunk ''new text'']\<rparr>"

section \<open>Properties of Search\<close>

lemma score_chunks_filter:
  "score_chunks sim q th cs = map (result_of sim q) (filter (passes sim q th) cs)"
  by (induction cs) (simp_all add: passes_def result_of_def Let_def)

lemma enum_mirror:
  assumes "distinct ks" "set ks = dom (memory vs)"
  shows "mset (map (\<lambda>k. the (memory vs k)) ks) = mirror_chunks vs"
proof -
  have "mset_set (dom (memory vs)) = mset ks"
    using assms by (metis mset_set_set)
  then show ?thesis by (simp add: mirror_chunks_def)
qed

lemma mset_score_chunks:
  "mset (score_chunks sim q th cs)
     = image_mset (result_of sim q) (filter_mset (passes sim q th) (mset cs))"
  by (simp add: score_chunks_filter)

lemma top_k_nonneg:
  "0 \<le> topK \<Longrightarrow> top_k rs topK = Ok (take (nat topK) rs)"
  by (simp add: top_k_def)

lemma top_k_neg:
  "topK < 0 \<Longrightarrow> top_k rs topK = Panicked SliceBoundsOutOfRange"
  by (simp add: top_k_def)

lemma SearchE:
  assumes "Search sim vs q topK th out"
  obtains results where
    "finite (dom (memory vs))"
    "mset results = image_mset (result_of sim q) (filter_mset (passes sim q th) (mirror_chunks vs))"
    "sorted_wrt (\<lambda>a b. Score a \<ge> Score b) results"
    "out = top_k results topK"
  using assms
proof (cases rule: Search.cases)
  case (Search_run ks results)
  have fin: "finite (dom (memory vs))"
    using Search_run(3) by (metis List.finite_set)
  have m: "mset results = image_mset (result_of sim q) (filter_mset (passes sim q th) (mirror_chunks vs))"
    using Search_run(4) enum_mirror[OF Search_run(2,3)]
    by (simp add: sort_Slice_def mset_score_chunks del: mset_map mset_filter)
  have s: "sorted_wrt (\<lambda>a b. Score a \<ge> Score b) results"
    using Search_run(4) by (simp add: sort_Slice_def score_less_def not_less)
  show ?thesis using that[OF fin m s Search_run(1)] .
qed

lemma Search_exists:
  assumes "finite (dom (memory vs))"
  shows "\<exists>results. Search sim vs q topK th (top_k results topK)"
proof -
  obtain ks where ks: "set ks = dom (memory vs)" "distinct ks"
    using finite_distinct_list[OF assms] by blast
  let ?xs = "score_chunks sim q th (map (\<lambda>k. the (memory vs k)) ks)"
  let ?ys = "sort_key (\<lambda>r. - Score r) ?xs"
  have "sorted (map (\<lambda>r. - Score r) ?ys)" by (rule sorted_sort_key)
  then have "sorted_wrt (\<lambda>a b. \<not> score_less b a) ?ys"
    by (simp add: sorted_map score_less_def not_less)
  then have "sort_Slice ?xs ?ys" by (simp add: sort_Slice_def)
  from Search_run[OF ks(2) ks(1) this] show ?thesis by blast
qed

lemma sorted_desc_scores_unique:
  assumes "sorted_wrt (\<lambda>a b. Score a \<ge> Score b) xs" "sorted_wrt (\<lambda>a b. Score a \<ge> Score b) ys"
    and "mset xs = mset ys"
  shows "map Score xs = map Score ys"
proof -
  have sx: "sorted (rev (map Score xs))" and sy: "sorted (rev (map Score ys))"
    using assms(1,2) by (simp_all add: sorted_wrt_rev sorted_map sorted_wrt_map flip: rev_map)
  have "mset (rev (map Score xs)) = mset (rev (map Score ys))"
    using assms(3) by (metis mset_map mset_rev)
  then have "rev (map Score xs) = rev (map Score ys)"
    using sx sy by (metis properties_for_sort sorted_sort_id)
  then show ?thesis by simp
qed

text \<open>Building a run of \<open>Search\<close> from an enumeration of the keys and a sorted result.\<close>

lemma Search_runI:
  assumes "distinct ks" "set ks = dom (memory vs)"
    and "sort_Slice (score_chunks sim q th (map (\<lambda>k. the (memory vs k)) ks)) results"
    and "top_k results topK = out"
  shows "Search sim vs q topK th out"
  using Search_run[OF assms(1-3), of topK] assms(4) by simp

text \<open>
  Claim C4, as amended.  For every store, query embedding, threshold and every
  \<open>topK \<ge> 0\<close>, a run of \<open>Search\<close> returns without error the first \<open>topK\<close> elements of a
  sequence \<open>full\<close> that holds exactly one result for each chunk of the mirror with a
  non-empty embedding and a score of at least the threshold, each result carrying the
  score and the document id of its chunk, in descending order of score.  No returned
  chunk has an empty embedding, and when no chunk passes the result is the empty
  sequence, returned without error.
\<close>

theorem Search_topK_of_sorted_matches:
  assumes "Search sim vs q topK th out" and "0 \<le> topK"
  shows "\<exists>full. out = Ok (take (nat topK) full)
     \<and> mset (map res_Chunk full)
         = {# c \<in># mirror_chunks vs. Embedding c \<noteq> [] \<and> th \<le> sim q (Embedding c) #}
     \<and> (\<forall>r \<in> set full. Score r = sim q (Embedding (res_Chunk r))
                        \<and> res_DocumentID r = DocumentID (res_Chunk r))
     \<and> sorted_wrt (\<lambda>a b. Score a \<ge> Score b) full
     \<and> (\<forall>r \<in> set (take (nat topK) full). Embedding (res_Chunk r) \<noteq> [])
     \<and> ({# c \<in># mirror_chunks vs. Embedding c \<noteq> [] \<and> th \<le> sim q (Embedding c) #} = {#}
          \<longrightarrow> take (nat topK) full = [])"
proof -
  from assms(1) obtain full where
    m: "mset full = image_mset (result_of sim q) (filter_mset (passes sim q th) (mirror_chunks vs))"
    and s: "sorted_wrt (\<lambda>a b. Score a \<ge> Score b) full"
    and out: "out = top_k full topK"
    by (rule SearchE)
  have p: "passes sim q th = (\<lambda>c. Embedding c \<noteq> [] \<and> th \<le> sim q (Embedding c))"
    by (simp add: passes_def fun_eq_iff)
  have o: "out = Ok (take (nat topK) full)"
    using out assms(2) by (simp add: top_k_nonneg)
  have "mset (map res_Chunk full) = image_mset res_Chunk (mset full)" by simp
  also have "\<dots> = filter_mset (passes sim q th) (mirror_chunks vs)"
    unfolding m by (simp add: image_mset.compositionality comp_def result_of_def)
  finally have c: "mset (map res_Chunk full)
         = {# c \<in># mirror_chunks vs. Embedding c \<noteq> [] \<and> th \<le> sim q (Embedding c) #}"
    by (simp add: p)
  have mem: "\<exists>c. r = result_of sim q c \<and> passes sim q th c" if "r \<in> set full" for r
  proof -
    from that have "r \<in># mset full" by simp
    then show ?thesis unfolding m by auto
  qed
  have f: "\<forall>r \<in> set full. Score r = sim q (Embedding (res_Chunk r))
                        \<and> res_DocumentID r = DocumentID (res_Chunk r)"
  proof
    fix r assume "r \<in> set full"
    from mem[OF this] obtain c where "r = result_of sim q c" by blast
    then show "Score r = sim q (Embedding (res_Chunk r))
                        \<and> res_DocumentID r = DocumentID (res_Chunk r)"
      by (simp add: result_of_def)
  qed
  have e: "\<forall>r \<in> set (take (nat topK) full). Embedding (res_Chunk r) \<noteq> []"
  proof
    fix r assume "r \<in> set (take (nat topK) full)"
    then have "r \<in> set full" by (rule in_set_takeD)
    from mem[OF this] show "Embedding (res_Chunk r) \<noteq> []"
      by (auto simp: result_of_def passes_def)
  qed
  have n: "{# c \<in># mirror_chunks vs. Embedding c \<noteq> [] \<and> th \<le> sim q (Embedding c) #} = {#}
          \<longrightarrow> take (nat topK) full = []"
  proof
    assume "{# c \<in># mirror_chunks vs. Embedding c \<noteq> [] \<and> th \<le> sim q (Embedding c) #} = {#}"
    with c have "mset (map res_Chunk full) = {#}" by simp
    then have "full = []" by simp
    then show "take (nat topK) full = []" by simp
  qed
  from o c f s e n show ?thesis by blast
qed

text \<open>
  The theorem at a store of three chunks, of which one has no embedding and one scores
  below the threshold \<open>1/2\<close>: the run returns the one passing chunk.
\<close>

theorem Search_topK_of_sorted_matches_witness:
  "Search dot (store_of [chunk_a, chunk_c, chunk_e]) [1, 0] 1 (1/2)
     (Ok [result_of dot [1, 0] chunk_a])
   \<and> (\<exists>full. Ok [result_of dot [1, 0] chunk_a] = Ok (take (nat 1) full)
     \<and> mset (map res_Chunk full)
         = {# c \<in># mirror_chunks (store_of [chunk_a, chunk_c, chunk_e]).
               Embedding c \<noteq> [] \<and> 1/2 \<le> dot [1, 0] (Embedding c) #}
     \<and> (\<forall>r \<in> set full. Score r = dot [1, 0] (Embedding (res_Chunk r))
                        \<and> res_DocumentID r = DocumentID (res_Chunk r))
     \<and> sorted_wrt (\<lambda>a b. Score a \<ge> Score b) full
     \<and> (\<forall>r \<in> set (take (nat 1) full). Embedding (res_Chunk r) \<noteq> []))"
proof -
  have run: "Search dot (store_of [chunk_a, chunk_c, chunk_e]) [1, 0] 1 (1/2)
     (Ok [result_of dot [1, 0] chunk_a])"
    by (rule Search_runI[where ks = "[''d2_1'', ''d1_0'', ''d2_0'']"
        and results = "[result_of dot [1, 0] chunk_a]"])
     (auto simp: store_of_def chunk_a_def chunk_c_def chunk_e_def sort_Slice_def dot_def
         top_k_def result_of_def score_less_def)
  have k: "(0::int) \<le> 1" by simp
  from Search_topK_of_sorted_matches[OF run k] run show ?thesis by blast
qed

text \<open>
  Claim C4 as stated, for every \<open>topK\<close>, fails at \<open>topK = -1\<close>: the run panics at
  \<open>results[:topK]\<close> and returns nothing.
\<close>

theorem Search_negative_topK_counterexample:
  "Search dot (store_of [chunk_a, chunk_c, chunk_e]) [1, 0] (-1) (1/2)
     (Panicked SliceBoundsOutOfRange)
   \<and> \<not> Search dot (store_of [chunk_a, chunk_c, chunk_e]) [1, 0] (-1) (1/2) (Ok [])"
proof
  show "Search dot (store_of [chunk_a, chunk_c, chunk_e]) [1, 0] (-1) (1/2)
     (Panicked SliceBoundsOutOfRange)"
    by (rule Search_runI[where ks = "[''d2_1'', ''d1_0'', ''d2_0'']"
        and results = "[result_of dot [1, 0] chunk_a]"])
     (auto simp: store_of_def chunk_a_def chunk_c_def chunk_e_def sort_Slice_def dot_def
         top_k_def result_of_def score_less_def)
  show "\<not> Search dot (store_of [chunk_a, chunk_c, chunk_e]) [1, 0] (-1) (1/2) (Ok [])"
  proof
    assume "Search dot (store_of [chunk_a, chunk_c, chunk_e]) [1, 0] (-1) (1/2) (Ok [])"
    then obtain full where "Ok [] = top_k full (-1)"
      by (rule SearchE)
    then show False by (simp add: top_k_neg)
  qed
qed

text \<open>
  Claim C5, as amended.  Two runs of \<open>Search\<close> on the same store with the same inputs
  end the same way and return the same sequence of scores; when no two chunks that pass
  the threshold have the same score, they return the same results in the same order.
\<close>

theorem Search_deterministic_up_to_ties:
  assumes "Search sim vs q topK th out1" and "Search sim vs q topK th out2"
  shows "map_result (map Score) out1 = map_result (map Score) out2
       \<and> ((\<forall>k1 k2 c1 c2. memory vs k1 = Some c1 \<and> memory vs k2 = Some c2 \<and> k1 \<noteq> k2
              \<and> Embedding c1 \<noteq> [] \<and> Embedding c2 \<noteq> []
              \<and> th \<le> sim q (Embedding c1) \<and> th \<le> sim q (Embedding c2)
              \<longrightarrow> sim q (Embedding c1) \<noteq> sim q (Embedding c2))
            \<longrightarrow> out1 = out2)"
proof -
  let ?M = "image_mset (result_of sim q) (filter_mset (passes sim q th) (mirror_chunks vs))"
  from assms(1) obtain full1 where fin: "finite (dom (memory vs))"
    and m1: "mset full1 = ?M" and s1: "sorted_wrt (\<lambda>a b. Score a \<ge> Score b) full1"
    and o1: "out1 = top_k full1 topK"
    by (rule SearchE)
  from assms(2) obtain full2 where
    m2: "mset full2 = ?M" and s2: "sorted_wrt (\<lambda>a b. Score a \<ge> Score b) full2"
    and o2: "out2 = top_k full2 topK"
    by (rule SearchE)
  have sc: "map Score full1 = map Score full2"
  proof (rule sorted_desc_scores_unique[OF s1 s2])
    show "mset full1 = mset full2" unfolding m1 m2 ..
  qed
  then have len: "length full1 = length full2" by (rule map_eq_imp_length_eq)
  have tk: "map Score (take n full1) = map Score (take n full2)" for n
    using arg_cong[OF sc, of "take n"] by (simp add: take_map)
  have part1: "map_result (map Score) out1 = map_result (map Score) out2"
  proof (cases "topK < 0")
    case True
    then show ?thesis unfolding o1 o2 by (simp add: top_k_neg)
  next
    case False
    then show ?thesis unfolding o1 o2 using tk[of "nat topK"] by (simp add: top_k_nonneg)
  qed
  have part2: "out1 = out2"
    if D: "\<forall>k1 k2 c1 c2. memory vs k1 = Some c1 \<and> memory vs k2 = Some c2 \<and> k1 \<noteq> k2
              \<and> Embedding c1 \<noteq> [] \<and> Embedding c2 \<noteq> []
              \<and> th \<le> sim q (Embedding c1) \<and> th \<le> sim q (Embedding c2)
              \<longrightarrow> sim q (Embedding c1) \<noteq> sim q (Embedding c2)"
  proof -
    have el: "\<exists>k c. memory vs k = Some c \<and> r = result_of sim q c \<and> passes sim q th c"
      if "r \<in># ?M" for r
    proof -
      from that obtain c where c: "c \<in># mirror_chunks vs" "passes sim q th c" "r = result_of sim q c"
        by auto
      from c(1) fin obtain k where "k \<in> dom (memory vs)" "c = the (memory vs k)"
        by (auto simp: mirror_chunks_def)
      then have "memory vs k = Some c" by auto
      with c show ?thesis by blast
    qed
    have inj: "inj_on Score (set_mset ?M)"
    proof (rule inj_onI)
      fix r1 r2 assume r: "r1 \<in># ?M" "r2 \<in># ?M" and eq: "Score r1 = Score r2"
      from el[OF r(1)] obtain k1 c1 where 1: "memory vs k1 = Some c1" "r1 = result_of sim q c1"
        "passes sim q th c1" by blast
      from el[OF r(2)] obtain k2 c2 where 2: "memory vs k2 = Some c2" "r2 = result_of sim q c2"
        "passes sim q th c2" by blast
      have "k1 = k2"
      proof (rule ccontr)
        assume "k1 \<noteq> k2"
        with D 1 2 have "sim q (Embedding c1) \<noteq> sim q (Embedding c2)"
          unfolding passes_def by blast
        with eq 1(2) 2(2) show False by (simp add: result_of_def)
      qed
      with 1 2 show "r1 = r2" by simp
    qed
    have "set full1 = set_mset ?M" "set full2 = set_mset ?M"
      using m1 m2 by (metis set_mset_mset)+
    then have "inj_on Score (set full1 \<union> set full2)" using inj by simp
    with sc have "full1 = full2" by (simp add: inj_on_map_eq_map)
    then show ?thesis unfolding o1 o2 by simp
  qed
  from part1 part2 show ?thesis by blast
qed

text \<open>
  The theorem at a store of two chunks with the scores 1 and 0: every run returns the
  two results in this order.
\<close>

theorem Search_deterministic_up_to_ties_witness:
  "Search dot (store_of [chunk_a, chunk_c]) [1, 0] 2 0
      (Ok [result_of dot [1, 0] chunk_a, result_of dot [1, 0] chunk_c])
   \<and> \<not> (\<exists>out. Search dot (store_of [chunk_a, chunk_c]) [1, 0] 2 0 out
         \<and> out \<noteq> Ok [result_of dot [1, 0] chunk_a, result_of dot [1, 0] chunk_c])"
proof -
  let ?vs = "store_of [chunk_a, chunk_c]"
  let ?out = "Ok [result_of dot [1, 0] chunk_a, result_of dot [1, 0] chunk_c]"
  have run: "Search dot ?vs [1, 0] 2 0 ?out"
    by (rule Search_runI[where ks = "[''d2_0'', ''d1_0'']"
        and results = "[result_of dot [1, 0] chunk_a, result_of dot [1, 0] chunk_c]"])
     (auto simp: store_of_def chunk_a_def chunk_c_def sort_Slice_def dot_def top_k_def
         result_of_def score_less_def)
  have D: "\<forall>k1 k2 c1 c2. memory ?vs k1 = Some c1 \<and> memory ?vs k2 = Some c2 \<and> k1 \<noteq> k2
              \<and> Embedding c1 \<noteq> [] \<and> Embedding c2 \<noteq> []
              \<and> 0 \<le> dot [1, 0] (Embedding c1) \<and> 0 \<le> dot [1, 0] (Embedding c2)
              \<longrightarrow> dot [1, 0] (Embedding c1) \<noteq> dot [1, 0] (Embedding c2)"
    by (auto simp: store_of_def chunk_a_def chunk_c_def dot_def split: if_splits)
  have "out = ?out" if "Search dot ?vs [1, 0] 2 0 out" for out
    using Search_deterministic_up_to_ties[OF that run] D by blast
  with run show ?thesis by blast
qed

text \<open>
  Claim C5 as stated fails where two chunks tie: with the chunks \<open>chunk_a\<close> and
  \<open>chunk_b\<close>, which have the same embedding, and \<open>topK = 1\<close>, one run returns the one and
  another run returns the other, according to the order in which the map is iterated.
\<close>

theorem Search_tie_order_counterexample:
  "Search dot (store_of [chunk_a, chunk_b]) [1, 0] 1 0 (Ok [result_of dot [1, 0] chunk_a])
   \<and> Search dot (store_of [chunk_a, chunk_b]) [1, 0] 1 0 (Ok [result_of dot [1, 0] chunk_b])
   \<and> Content (res_Chunk (result_of dot [1, 0] chunk_a))
       \<noteq> Content (res_Chunk (result_of dot [1, 0] chunk_b))"
proof (intro conjI)
  show "Search dot (store_of [chunk_a, chunk_b]) [1, 0] 1 0 (Ok [result_of dot [1, 0] chunk_a])"
    by (rule Search_runI[where ks = "[''d1_0'', ''d1_1'']"
        and results = "[result_of dot [1, 0] chunk_a, result_of dot [1, 0] chunk_b]"])
     (auto simp: store_of_def chunk_a_def chunk_b_def sort_Slice_def dot_def top_k_def
         result_of_def score_less_def)
  show "Search dot (store_of [chunk_a, chunk_b]) [1, 0] 1 0 (Ok [result_of dot [1, 0] chunk_b])"
    by (rule Search_runI[where ks = "[''d1_1'', ''d1_0'']"
        and results = "[result_of dot [1, 0] chunk_b, result_of dot [1, 0] chunk_a]"])
     (auto simp: store_of_def chunk_a_def chunk_b_def sort_Slice_def dot_def top_k_def
         result_of_def score_less_def)
  show "Content (res_Chunk (result_of dot [1, 0] chunk_a))
       \<noteq> Content (res_Chunk (result_of dot [1, 0] chunk_b))"
    by (simp add: result_of_def chunk_a_def chunk_b_def runes_of_def)
qed

text \<open>
  Claim C10.  With \<open>topK = 0\<close> every run of \<open>Search\<close> returns the empty sequence.  For
  every \<open>topK \<ge> 0\<close> and every store (a Go map is finite) \<open>Search\<close> has a run, and every
  run returns, without panic and with a \<open>nil\<close> error, at most \<open>topK\<close> results.
\<close>

theorem Search_topK_zero_empty_and_total:
  "(Search sim vs q 0 th out \<longrightarrow> out = Ok [])
   \<and> (finite (dom (memory vs)) \<and> 0 \<le> topK \<longrightarrow>
        (\<exists>rs. Search sim vs q topK th (Ok rs))
      \<and> (\<forall>out'. Search sim vs q topK th out' \<longrightarrow>
             (\<exists>rs. out' = Ok rs \<and> int (length rs) \<le> topK)))"
proof (intro conjI impI)
  assume "Search sim vs q 0 th out"
  then obtain full where "out = top_k full 0"
    by (rule SearchE)
  then show "out = Ok []" by (simp add: top_k_nonneg)
next
  assume a: "finite (dom (memory vs)) \<and> 0 \<le> topK"
  then obtain results where "Search sim vs q topK th (top_k results topK)"
    using Search_exists by blast
  then show "\<exists>rs. Search sim vs q topK th (Ok rs)"
    using a by (auto simp: top_k_nonneg)
next
  assume a: "finite (dom (memory vs)) \<and> 0 \<le> topK"
  show "\<forall>out'. Search sim vs q topK th out' \<longrightarrow>
             (\<exists>rs. out' = Ok rs \<and> int (length rs) \<le> topK)"
  proof (intro allI impI)
    fix out' assume "Search sim vs q topK th out'"
    then obtain full where "out' = top_k full topK"
      by (rule SearchE)
    then show "\<exists>rs. out' = Ok rs \<and> int (length rs) \<le> topK"
      using a by (auto simp: top_k_nonneg)
  qed
qed

text \<open>The theorem at a store of two passing chunks, with \<open>topK = 0\<close> and \<open>topK = 1\<close>.\<close>

theorem Search_topK_zero_empty_and_total_witness:
  "Search dot (store_of [chunk_a, chunk_b]) [1, 0] 0 0 (Ok [])
   \<and> finite (dom (memory (store_of [chunk_a, chunk_b])))
   \<and> (\<exists>rs. Search dot (store_of [chunk_a, chunk_b]) [1, 0] 1 0 (Ok rs))"
proof -
  let ?vs = "store_of [chunk_a, chunk_b]"
  have fin: "finite (dom (memory ?vs))" by (simp add: store_of_def)
  have run: "Search dot ?vs [1, 0] 0 0 (Ok [])"
    by (rule Search_runI[where ks = "[''d1_0'', ''d1_1'']"
        and results = "[result_of dot [1, 0] chunk_a, result_of dot [1, 0] chunk_b]"])
     (auto simp: store_of_def chunk_a_def chunk_b_def sort_Slice_def dot_def top_k_def
         result_of_def score_less_def)
  have k: "(0::int) \<le> 1" by simp
  from Search_topK_zero_empty_and_total[of dot ?vs "[1,0]" 0 "Ok []" 1] fin k run
  show ?thesis by blast
qed

section \<open>The mirror and the bucket\<close>

lemma AddChunks_tx_consistent:
  assumes "\<forall>k. bucket k = map_option Gob (mem k)"
    and "AddChunks_tx env chunks bucket mem = (err, bucket', mem')"
  shows "\<forall>k. bucket' k = map_option Gob (mem' k)"
  using assms
proof (induction chunks arbitrary: bucket mem)
  case Nil
  then show ?case by auto
next
  case (Cons c rest)
  let ?chunk = "if ID c = [] then c\<lparr>ID := chunk_key (DocumentID c) (Index c)\<rparr> else c"
  show ?case
  proof (cases "encode_error env ?chunk")
    case (Some e)
    with Cons.prems show ?thesis by (auto simp add: Let_def)
  next
    case None
    note enc = this
    show ?thesis
    proof (cases "put_error env (ID ?chunk)")
      case (Some e)
      with enc Cons.prems show ?thesis by (auto simp add: Let_def)
    next
      case None
      have step: "\<forall>k. (bucket(ID ?chunk \<mapsto> Gob ?chunk)) k
                      = map_option Gob ((mem(ID ?chunk \<mapsto> ?chunk)) k)"
        using Cons.prems(1) by simp
      have "AddChunks_tx env rest (bucket(ID ?chunk \<mapsto> Gob ?chunk)) (mem(ID ?chunk \<mapsto> ?chunk))
              = (err, bucket', mem')"
        using Cons.prems(2) enc None by (simp add: Let_def)
      from Cons.IH[OF step this] show ?thesis .
    qed
  qed
qed

lemma AddChunks_nil_consistent:
  assumes "mirror_consistent vs" and "AddChunks env vs chunks = (None, vs')"
  shows "mirror_consistent vs'"
proof -
  obtain err bucket mem where tx: "AddChunks_tx env chunks (db vs) (memory vs) = (err, bucket, mem)"
    by (metis prod_cases3)
  have inv: "\<forall>k. bucket k = map_option Gob (mem k)"
    using AddChunks_tx_consistent[OF _ tx] assms(1) by (simp add: mirror_consistent_def)
  from assms(2) tx have "vs' = vs\<lparr>db := bucket, memory := mem\<rparr>"
    by (auto simp: AddChunks_def split: option.splits)
  with inv show ?thesis by (simp add: mirror_consistent_def)
qed

lemma DeleteByDocumentID_nil_consistent:
  assumes "mirror_consistent vs" and "DeleteByDocumentID env vs documentID = (None, vs')"
  shows "mirror_consistent vs'"
proof -
  from assms(2) have "vs' = vs\<lparr>db := (\<lambda>k. if to_delete (db vs) documentID k then None else db vs k),
      memory := (\<lambda>k. if to_delete (db vs) documentID k then None else memory vs k)\<rparr>"
    by (auto simp: DeleteByDocumentID_def Let_def split: if_splits option.splits)
  with assms(1) show ?thesis by (simp add: mirror_consistent_def)
qed

lemma NewVectorStore_consistent:
  assumes "NewVectorStore bucket = Inr vs"
  shows "mirror_consistent vs"
proof -
  from assms have u: "Undecodable \<notin> ran bucket"
    and vs: "vs = \<lparr>db = bucket,
                   memory = (\<lambda>k. case bucket k of Some (Gob chunk) \<Rightarrow> Some chunk | _ \<Rightarrow> None)\<rparr>"
    by (auto simp: NewVectorStore_def loadIntoMemory_def split: if_splits)
  have "bucket k = map_option Gob (case bucket k of Some (Gob chunk) \<Rightarrow> Some chunk | _ \<Rightarrow> None)"
    for k
  proof (cases "bucket k")
    case None
    then show ?thesis by simp
  next
    case (Some v)
    with u have "v \<noteq> Undecodable" by (auto simp: ran_def)
    with Some show ?thesis by (cases v) simp_all
  qed
  with vs show ?thesis by (simp add: mirror_consistent_def)
qed

text \<open>
  Claim C2 at a failing input.  The store is empty and consistent; \<open>AddChunks\<close> is called
  with the one chunk \<open>chunk_a\<close> and the commit of the transaction fails.  The call
  returns the error, the bucket holds nothing, and the mirror holds the chunk: the
  store is no longer consistent, and a \<open>Search\<close> returns the chunk that was never
  committed.
\<close>

theorem AddChunks_failed_commit_keeps_uncommitted_chunk:
  "mirror_consistent empty_store
   \<and> AddChunks commit_fails empty_store [chunk_a]
       = (Some ''write error'', \<lparr>db = Map.empty, memory = [''d1_0'' \<mapsto> chunk_a]\<rparr>)
   \<and> \<not> mirror_consistent (snd (AddChunks commit_fails empty_store [chunk_a]))
   \<and> Search dot (snd (AddChunks commit_fails empty_store [chunk_a])) [1, 0] 1 0
        (Ok [result_of dot [1, 0] chunk_a])"
proof -
  have r: "AddChunks commit_fails empty_store [chunk_a]
       = (Some ''write error'', \<lparr>db = Map.empty, memory = [''d1_0'' \<mapsto> chunk_a]\<rparr>)"
    by (simp add: AddChunks_def commit_fails_def no_faults_def empty_store_def chunk_a_def Let_def)
  have c: "mirror_consistent empty_store"
    by (simp add: mirror_consistent_def empty_store_def)
  have n: "\<not> mirror_consistent \<lparr>db = Map.empty, memory = [''d1_0'' \<mapsto> chunk_a]\<rparr>"
    by (auto simp: mirror_consistent_def)
  have s: "Search dot \<lparr>db = Map.empty, memory = [''d1_0'' \<mapsto> chunk_a]\<rparr> [1, 0] 1 0
        (Ok [result_of dot [1, 0] chunk_a])"
    by (rule Search_runI[where ks = "[''d1_0'']" and results = "[result_of dot [1, 0] chunk_a]"])
       (auto simp: chunk_a_def sort_Slice_def dot_def top_k_def result_of_def score_less_def)
  from r c n s show ?thesis by simp
qed

text \<open>
  The same with an error inside the batch: the second \<open>bucket.Put\<close> fails, the
  transaction is rolled back, and the first chunk of the batch stays in the mirror.
\<close>

lemma AddChunks_failed_put_keeps_earlier_chunk:
  "AddChunks (no_faults\<lparr>put_error := (\<lambda>k. if k = ''d1_1'' then Some ''key too large'' else None)\<rparr>)
      empty_store [chunk_a, chunk_b]
     = (Some ''key too large'', \<lparr>db = Map.empty, memory = [''d1_0'' \<mapsto> chunk_a]\<rparr>)"
  by (simp add: AddChunks_def no_faults_def empty_store_def chunk_a_def chunk_b_def Let_def)

text \<open>
  \<open>DeleteByDocumentID\<close> with a failing commit: the chunk stays in the bucket and is gone
  from the mirror.
\<close>

lemma DeleteByDocumentID_failed_commit_loses_committed_chunk:
  "DeleteByDocumentID commit_fails (store_of [chunk_a]) ''d1''
     = (Some ''write error'', \<lparr>db = [''d1_0'' \<mapsto> Gob chunk_a], memory = Map.empty\<rparr>)"
  by (auto simp: DeleteByDocumentID_def commit_fails_def no_faults_def store_of_def chunk_a_def
        to_delete_def Let_def fun_eq_iff)

section \<open>Properties of the fixed chunker\<close>

lemma slice_window:
  assumes "i < length rs" "0 < sz"
  shows "slice rs (int i) (if int (length rs) < int i + sz then int (length rs) else int i + sz)
           = take (nat sz) (drop i rs)"
proof (cases "int (length rs) < int i + sz")
  case True
  then have "nat sz \<ge> length rs - i" by linarith
  with True assms show ?thesis by (simp add: slice_def nat_diff_distrib')
next
  case False
  then show ?thesis by (simp add: slice_def)
qed

text \<open>With \<open>0 \<le> overlap < size\<close> the loop returns, and its chunks are the windows in turn.\<close>

lemma chunkFixed_loop_windows:
  assumes "0 \<le> ov" "ov < sz"
  shows "chunkFixed_loop doc rs sz ov (int i) chunks
     = Some (Ok (chunks @ map (\<lambda>(k, w). new_chunk doc w (int k))
                (enumerate (length chunks) (windows_from rs (nat sz) (nat (sz - ov)) i))))"
proof (induction rs "nat sz" "nat (sz - ov)" i arbitrary: chunks rule: windows_from.induct)
  case (1 rs i)
  show ?case
  proof (cases "i < length rs")
    case False
    then show ?thesis
      by (subst chunkFixed_loop.simps, subst windows_from.simps) simp
  next
    case True
    note lt = this
    have st: "0 < nat (sz - ov)" and sz: "0 < sz" using assms by simp_all
    let ?end = "if int (length rs) < int i + sz then int (length rs) else int i + sz"
    let ?c = "new_chunk doc (take (nat sz) (drop i rs)) (int (length chunks))"
    have noerr: "\<not> (int i < 0 \<or> ?end < int i)" using lt sz by simp
    show ?thesis
    proof (cases "length rs \<le> i + nat sz")
      case True
      then have e: "int (length rs) \<le> ?end" using sz by auto
      have w: "windows_from rs (nat sz) (nat (sz - ov)) i = [take (nat sz) (drop i rs)]"
        using lt st True by (subst windows_from.simps) simp
      have "chunkFixed_loop doc rs sz ov (int i) chunks = Some (Ok (chunks @ [?c]))"
        using lt noerr e slice_window[OF lt sz]
        by (subst chunkFixed_loop.simps) (simp add: Let_def)
      then show ?thesis by (simp add: w)
    next
      case False
      then have e: "\<not> int (length rs) \<le> ?end" using sz by auto
      have w: "windows_from rs (nat sz) (nat (sz - ov)) i
           = take (nat sz) (drop i rs) # windows_from rs (nat sz) (nat (sz - ov)) (i + nat (sz - ov))"
        using lt st False by (subst windows_from.simps) simp
      have nx: "int i + (sz - ov) = int (i + nat (sz - ov))" using assms by simp
      have "chunkFixed_loop doc rs sz ov (int i) chunks
              = chunkFixed_loop doc rs sz ov (int (i + nat (sz - ov))) (chunks @ [?c])"
        using lt noerr e slice_window[OF lt sz] nx
        by (subst chunkFixed_loop.simps) (simp add: Let_def)
      also have "\<dots> = Some (Ok ((chunks @ [?c]) @ map (\<lambda>(k, w). new_chunk doc w (int k))
                (enumerate (length (chunks @ [?c]))
                   (windows_from rs (nat sz) (nat (sz - ov)) (i + nat (sz - ov))))))"
        using "1.hyps"[of "chunks @ [?c]"] lt st False by simp
      finally show ?thesis by (simp add: w)
    qed
  qed
qed

lemma windows_from_nonempty:
  "i < length rs \<Longrightarrow> 0 < st \<Longrightarrow> windows_from rs sz st i \<noteq> []"
  by (subst windows_from.simps) simp

lemma windows_from_hd:
  "i < length rs \<Longrightarrow> 0 < st \<Longrightarrow> hd (windows_from rs sz st i) = take sz (drop i rs)"
  by (subst windows_from.simps) simp

lemma windows_from_sizes:
  assumes "0 < sz"
  shows "\<forall>w \<in> set (windows_from rs sz st i). w \<noteq> [] \<and> length w \<le> sz"
  using assms
proof (induction rs sz st i rule: windows_from.induct)
  case (1 rs sz st i)
  show ?case
  proof (cases "i < length rs \<and> 0 < st")
    case False
    then have "windows_from rs sz st i = []" by (subst windows_from.simps) simp
    then show ?thesis by simp
  next
    case True
    then have hd: "take sz (drop i rs) \<noteq> [] \<and> length (take sz (drop i rs)) \<le> sz"
      using "1.prems" by simp
    show ?thesis
    proof (cases "length rs \<le> i + sz")
      case t: True
      with True have "windows_from rs sz st i = [take sz (drop i rs)]"
        by (subst windows_from.simps) simp
      with hd show ?thesis by simp
    next
      case False
      with True have "windows_from rs sz st i
           = take sz (drop i rs) # windows_from rs sz st (i + st)"
        by (subst windows_from.simps) simp
      with hd "1.IH"[OF True _ "1.prems"] False show ?thesis by simp
    qed
  qed
qed

lemma windows_from_overlap:
  assumes "ov < sz"
  shows "successively (\<lambda>w w'. length w = sz \<and> ov < length w' \<and> drop (sz - ov) w = take ov w')
           (windows_from rs sz (sz - ov) i)"
  using assms
proof (induction rs sz "sz - ov" i rule: windows_from.induct)
  case (1 rs sz i)
  have st: "0 < sz - ov" using "1.prems" by simp
  show ?case
  proof (cases "i < length rs")
    case False
    then have "windows_from rs sz (sz - ov) i = []" by (subst windows_from.simps) simp
    then show ?thesis by simp
  next
    case True
    show ?thesis
    proof (cases "length rs \<le> i + sz")
      case t: True
      with True st have "windows_from rs sz (sz - ov) i = [take sz (drop i rs)]"
        by (subst windows_from.simps) simp
      then show ?thesis by simp
    next
      case False
      with True st have w: "windows_from rs sz (sz - ov) i
           = take sz (drop i rs) # windows_from rs sz (sz - ov) (i + (sz - ov))"
        by (subst windows_from.simps) simp
      have lt': "i + (sz - ov) < length rs" using False "1.prems" by simp
      have w': "windows_from rs sz (sz - ov) (i + (sz - ov))
           = take sz (drop (i + (sz - ov)) rs)
             # (if length rs \<le> i + (sz - ov) + sz then []
                else windows_from rs sz (sz - ov) (i + (sz - ov) + (sz - ov)))"
        using lt' st by (subst windows_from.simps) simp
      have l1: "length (take sz (drop i rs)) = sz" using False by simp
      have l2: "ov < length (take sz (drop (i + (sz - ov)) rs))"
        using False "1.prems" by simp
      have "drop (sz - ov) (take sz (drop i rs)) = take ov (drop (i + (sz - ov)) rs)"
        using "1.prems" by (simp add: drop_take add.commute)
      also have "\<dots> = take ov (take sz (drop (i + (sz - ov)) rs))"
        using "1.prems" by simp
      finally have eq: "drop (sz - ov) (take sz (drop i rs))
          = take ov (take sz (drop (i + (sz - ov)) rs))" .
      have ih: "successively (\<lambda>w w'. length w = sz \<and> ov < length w' \<and> drop (sz - ov) w = take ov w')
           (windows_from rs sz (sz - ov) (i + (sz - ov)))"
        using "1.hyps"[OF _ _ "1.prems"] True st False by simp
      show ?thesis
        unfolding w using ih l1 l2 eq
        by (subst (asm) w', subst w') (simp add: successively_Cons)
    qed
  qed
qed

lemma windows_from_concat:
  assumes "ov < sz"
  shows "(case windows_from rs sz (sz - ov) i of [] \<Rightarrow> []
          | w # rest \<Rightarrow> w @ concat (map (drop ov) rest)) = drop i rs"
  using assms
proof (induction rs sz "sz - ov" i rule: windows_from.induct)
  case (1 rs sz i)
  have st: "0 < sz - ov" using "1.prems" by simp
  show ?case
  proof (cases "i < length rs")
    case False
    then have "windows_from rs sz (sz - ov) i = []" by (subst windows_from.simps) simp
    with False show ?thesis by simp
  next
    case True
    show ?thesis
    proof (cases "length rs \<le> i + sz")
      case t: True
      with True st have "windows_from rs sz (sz - ov) i = [take sz (drop i rs)]"
        by (subst windows_from.simps) simp
      with t show ?thesis by simp
    next
      case False
      with True st have w: "windows_from rs sz (sz - ov) i
           = take sz (drop i rs) # windows_from rs sz (sz - ov) (i + (sz - ov))"
        by (subst windows_from.simps) simp
      have lt': "i + (sz - ov) < length rs" using False "1.prems" by simp
      obtain w' rest where w': "windows_from rs sz (sz - ov) (i + (sz - ov)) = w' # rest"
        using windows_from_nonempty[OF lt' st, of sz]
        by (cases "windows_from rs sz (sz - ov) (i + (sz - ov))") auto
      have hdw: "w' = take sz (drop (i + (sz - ov)) rs)"
        using windows_from_hd[OF lt' st, of sz] w' by simp
      have ih: "w' @ concat (map (drop ov) rest) = drop (i + (sz - ov)) rs"
        using "1.hyps"[OF _ _ "1.prems"] True st False w' by simp
      have l2: "ov \<le> length w'" using hdw False "1.prems" by simp
      have "drop ov w' @ concat (map (drop ov) rest) = drop ov (w' @ concat (map (drop ov) rest))"
        using l2 by simp
      also have "\<dots> = drop (i + sz) rs"
        unfolding ih using "1.prems" by (simp add: add.commute)
      finally have t: "drop ov w' @ concat (map (drop ov) rest) = drop sz (drop i rs)"
        by (simp add: add.commute)
      have "take sz (drop i rs) @ drop ov w' @ concat (map (drop ov) rest)
           = take sz (drop i rs) @ drop sz (drop i rs)"
        unfolding t ..
      also have "\<dots> = drop i rs" by (rule append_take_drop_id)
      finally show ?thesis unfolding w w' by simp
    qed
  qed
qed

text \<open>With a stride of zero the loop returns only if the first window reaches the end of
  the text.\<close>

lemma chunkFixed_loop_stuck:
  assumes "chunkFixed_loop doc rs sz ov i chunks = Some y"
  shows "\<not> (sz = ov \<and> 0 \<le> i \<and> 0 \<le> sz \<and> i + sz < int (length rs))"
proof (rule chunkFixed_loop.raw_induct[where
      P = "\<lambda>doc rs sz ov i chunks y. \<not> (sz = ov \<and> 0 \<le> i \<and> 0 \<le> sz \<and> i + sz < int (length rs))",
      OF _ assms], goal_cases)
  case (1 f doc rs sz ov i chunks y)
  show ?case
  proof
    assume a: "sz = ov \<and> 0 \<le> i \<and> 0 \<le> sz \<and> i + sz < int (length rs)"
    with 1(2) have "f doc rs sz ov i
         (chunks @ [new_chunk doc (slice rs i (i + sz)) (int (length chunks))]) = Some y"
      by (simp add: Let_def split: if_splits)
    from 1(1)[OF this] a show False by simp
  qed
qed

lemma chunkFixed_never_returns:
  assumes "0 \<le> sz" "sz < int (length rs)"
  shows "chunkFixed doc rs sz sz = None"
proof (cases "chunkFixed doc rs sz sz")
  case None
  then show ?thesis .
next
  case (Some y)
  then have "chunkFixed_loop doc rs sz sz 0 [] = Some y" by (simp add: chunkFixed_def)
  from chunkFixed_loop_stuck[OF this] assms show ?thesis by simp
qed

text \<open>
  Claim C7 at a failing input.  With the method \<open>fixed\<close>, \<open>chunkSize = chunkOverlap = 1\<close>
  and the text \<open>ab\<close>, the loop of \<open>chunkFixed\<close> adds \<open>size - overlap = 0\<close> to \<open>i\<close> and
  \<open>ChunkDocument\<close> never returns.  With \<open>chunkOverlap = 2\<close> the second pass slices from
  \<open>i = -1\<close> and panics.  Neither policy is rejected or clamped.
\<close>

theorem ChunkDocument_stride_zero_never_returns:
  "ChunkDocument (fixed_cfg 1 1) (doc_of ''notes.txt'' ''d1'' ''ab'') = None
   \<and> ChunkDocument (fixed_cfg 1 2) (doc_of ''notes.txt'' ''d1'' ''ab'')
       = Some (Panicked SliceBoundsOutOfRange)"
proof
  have "chunkFixed (doc_of ''notes.txt'' ''d1'' ''ab'') (runes_of ''ab'') 1 1 = None"
    by (rule chunkFixed_never_returns) (simp_all add: runes_of_def)
  then show "ChunkDocument (fixed_cfg 1 1) (doc_of ''notes.txt'' ''d1'' ''ab'') = None"
    by (simp add: ChunkDocument_def doc_of_def fixed_cfg_def)
  show "ChunkDocument (fixed_cfg 1 2) (doc_of ''notes.txt'' ''d1'' ''ab'')
       = Some (Panicked SliceBoundsOutOfRange)"
    by (simp add: ChunkDocument_def fixed_cfg_def chunkFixed_def chunkFixed_loop.simps Let_def
        slice_def new_chunk_def TrimSpace_def IsSpace_def runes_of_def doc_of_def)
qed

text \<open>
  Claim C8, as amended.  For \<open>0 \<le> chunkOverlap < chunkSize\<close>, \<open>chunkFixed\<close> returns, and
  its result is determined by the text and the policy: there is a sequence \<open>ws\<close> of
  windows such that the \<open>k\<close>-th chunk is the chunk literal built from the \<open>k\<close>-th window
  with index \<open>k\<close> (its content is the window with the white space trimmed off both ends).
  Every window is non-empty and has at most \<open>chunkSize\<close> code points; of two consecutive
  windows the first has exactly \<open>chunkSize\<close> code points and its last \<open>chunkOverlap\<close> code
  points are the first \<open>chunkOverlap\<close> code points of the second, which is longer than
  \<open>chunkOverlap\<close>; and the first window followed by the others without their first
  \<open>chunkOverlap\<close> code points is the text.  (Under these hypotheses the sums of the loop
  stay in the range of Go's \<open>int\<close>: \<open>i + size\<close> is formed at \<open>i = 0\<close>, or at an \<open>i\<close> below
  the length of the text when \<open>size\<close> is below it too.)
\<close>

theorem chunkFixed_windows_overlap_reconstruct:
  assumes "0 \<le> chunkOverlap" and "chunkOverlap < chunkSize"
  shows "\<exists>ws. chunkFixed doc rs chunkSize chunkOverlap
            = Some (Ok (map (\<lambda>(k, w). new_chunk doc w (int k)) (enumerate 0 ws)))
     \<and> (\<forall>w \<in> set ws. w \<noteq> [] \<and> int (length w) \<le> chunkSize)
     \<and> successively (\<lambda>w w'. int (length w) = chunkSize \<and> chunkOverlap < int (length w')
                        \<and> drop (nat (chunkSize - chunkOverlap)) w = take (nat chunkOverlap) w') ws
     \<and> (case ws of [] \<Rightarrow> [] | w # rest \<Rightarrow> w @ concat (map (drop (nat chunkOverlap)) rest)) = rs"
proof -
  let ?sz = "nat chunkSize" and ?ov = "nat chunkOverlap"
  let ?ws = "windows_from rs ?sz (?sz - ?ov) 0"
  have lt: "?ov < ?sz" and pos: "0 < ?sz" using assms by simp_all
  have st: "nat (chunkSize - chunkOverlap) = ?sz - ?ov" using assms by simp
  have a: "chunkFixed doc rs chunkSize chunkOverlap
            = Some (Ok (map (\<lambda>(k, w). new_chunk doc w (int k)) (enumerate 0 ?ws)))"
    using chunkFixed_loop_windows[OF assms, of doc rs 0 "[]"] by (simp add: chunkFixed_def st)
  have b: "\<forall>w \<in> set ?ws. w \<noteq> [] \<and> int (length w) \<le> chunkSize"
  proof
    fix w assume "w \<in> set ?ws"
    with windows_from_sizes[OF pos, of rs "?sz - ?ov" 0]
    have "w \<noteq> [] \<and> length w \<le> ?sz" by blast
    then show "w \<noteq> [] \<and> int (length w) \<le> chunkSize" using assms by linarith
  qed
  have "successively (\<lambda>w w'. length w = ?sz \<and> ?ov < length w' \<and> drop (?sz - ?ov) w = take ?ov w') ?ws"
    by (rule windows_from_overlap[OF lt])
  then have c: "successively (\<lambda>w w'. int (length w) = chunkSize \<and> chunkOverlap < int (length w')
                        \<and> drop (nat (chunkSize - chunkOverlap)) w = take (nat chunkOverlap) w') ?ws"
  proof (rule successively_mono)
    fix w w' :: "nat list"
    assume "length w = ?sz \<and> ?ov < length w' \<and> drop (?sz - ?ov) w = take ?ov w'"
    then show "int (length w) = chunkSize \<and> chunkOverlap < int (length w')
                        \<and> drop (nat (chunkSize - chunkOverlap)) w = take (nat chunkOverlap) w'"
      using assms st by auto
  qed
  have d: "(case ?ws of [] \<Rightarrow> [] | w # rest \<Rightarrow> w @ concat (map (drop ?ov) rest)) = rs"
    using windows_from_concat[OF lt, of rs 0] by simp
  from a b c d show ?thesis by blast
qed

text \<open>The theorem at the text \<open>ab cd\<close> with \<open>chunkSize = 3\<close> and \<open>chunkOverlap = 1\<close>: the
  windows are \<open>"ab "\<close> and \<open>" cd"\<close>.\<close>

theorem chunkFixed_windows_overlap_reconstruct_witness:
  "(0::int) \<le> 1 \<and> (1::int) < 3
   \<and> chunkFixed (doc_of ''notes.txt'' ''d1'' ''ab cd'') (runes_of ''ab cd'') 3 1
       = Some (Ok (map (\<lambda>(k, w). new_chunk (doc_of ''notes.txt'' ''d1'' ''ab cd'') w (int k))
                     (enumerate 0 [runes_of ''ab '', runes_of '' cd''])))
   \<and> (\<exists>ws. chunkFixed (doc_of ''notes.txt'' ''d1'' ''ab cd'') (runes_of ''ab cd'') 3 1
            = Some (Ok (map (\<lambda>(k, w). new_chunk (doc_of ''notes.txt'' ''d1'' ''ab cd'') w (int k))
                          (enumerate 0 ws)))
     \<and> successively (\<lambda>w w'. int (length w) = 3 \<and> 1 < int (length w')
                        \<and> drop (nat (3 - 1)) w = take (nat 1) w') ws
     \<and> (case ws of [] \<Rightarrow> [] | w # rest \<Rightarrow> w @ concat (map (drop (nat 1)) rest))
          = runes_of ''ab cd'')"
proof -
  have h1: "(0::int) \<le> 1" and h2: "(1::int) < 3" by simp_all
  have v: "chunkFixed (doc_of ''notes.txt'' ''d1'' ''ab cd'') (runes_of ''ab cd'') 3 1
       = Some (Ok (map (\<lambda>(k, w). new_chunk (doc_of ''notes.txt'' ''d1'' ''ab cd'') w (int k))
                     (enumerate 0 [runes_of ''ab '', runes_of '' cd''])))"
    by (simp add: chunkFixed_def chunkFixed_loop.simps Let_def slice_def new_chunk_def
        TrimSpace_def IsSpace_def runes_of_def doc_of_def)
  from chunkFixed_windows_overlap_reconstruct[OF h1 h2,
      of "doc_of ''notes.txt'' ''d1'' ''ab cd''" "runes_of ''ab cd''"] v h1 h2
  show ?thesis by blast
qed

text \<open>
  Claim C8 as stated fails.  At the text \<open>ab cd\<close> with \<open>chunkSize = 3\<close> and
  \<open>chunkOverlap = 1\<close> the chunks are \<open>ab\<close> and \<open>cd\<close>: the last code point of the first
  is not the first code point of the second, and the two do not give the text back.  At
  the text \<open>abc\<close> with \<open>chunkSize = 1\<close> and \<open>chunkOverlap = -1\<close>, which the claim admits,
  the chunks are \<open>a\<close> and \<open>c\<close>.
\<close>

theorem chunkFixed_trims_windows_counterexample:
  "map_option (map_result (map Content))
       (chunkFixed (doc_of ''notes.txt'' ''d1'' ''ab cd'') (runes_of ''ab cd'') 3 1)
     = Some (Ok [runes_of ''ab'', runes_of ''cd''])
   \<and> drop (length (runes_of ''ab'') - 1) (runes_of ''ab'') \<noteq> take 1 (runes_of ''cd'')
   \<and> runes_of ''ab'' @ drop 1 (runes_of ''cd'') \<noteq> runes_of ''ab cd''
   \<and> map_option (map_result (map Content))
       (chunkFixed (doc_of ''notes.txt'' ''d1'' ''abc'') (runes_of ''abc'') 1 (-1))
     = Some (Ok [runes_of ''a'', runes_of ''c''])"
  by (simp add: chunkFixed_def chunkFixed_loop.simps Let_def slice_def new_chunk_def
      TrimSpace_def IsSpace_def runes_of_def doc_of_def)

section \<open>Properties of the cosine similarity\<close>


























section \<open>Properties of the indexer\<close>








text \<open>
  A call with \<open>forceReindex = false\<close> answers from the cache, and leaves the indexer as it
  is, when \<open>docCache\<close> holds a document for the path whose hash is the digest of the file
  and whose modification time is not before the file's, and the cache directory holds
  the chunks of that document.
\<close>

lemma IndexFile_answers_from_cache:
  assumes "docCache idx filePath = Some d"
    and "files w filePath = Some f"
    and "sha256_hex w (contents f) = doc_Hash d" and "ModTime f \<le> doc_FileModTime d"
    and "cache_chunks idx (doc_ID d) = Some chunks"
  shows "IndexFile w cfg idx filePath False = Some (Ok chunks, idx)"
  using assms by (simp add: IndexFile_def needsReindex_def FileHash_def loadCachedChunks_def)

text \<open>
  Claim C6 at a failing input.  The cache directory cannot be created.  The first call
  of \<open>IndexFile\<close> on \<open>notes.txt\<close> logs the failure of \<open>cacheDocument\<close>, records the document
  in \<open>docCache\<close> all the same and returns the chunk.  The file is not touched.  The second
  call, with \<open>forceReindex = false\<close>, finds the document in \<open>docCache\<close> with the hash of
  the file and its modification time, so \<open>needsReindex\<close> says that nothing has changed,
  and the call returns the error of opening the chunk file that was never written,
  where the claim has it return the chunk of the first call.
\<close>

theorem IndexFile_unwritable_cache_breaks_second_call:
  "(case IndexFile (world_of ''old text'' unit_provider MkdirAllFails) (fixed_cfg 512 128)
           new_indexer ''notes.txt'' False of
      Some (Ok chunks, idx1) \<Rightarrow>
        map Content chunks = [runes_of ''old text'']
        \<and> needsReindex (world_of ''old text'' unit_provider MkdirAllFails) idx1 ''notes.txt''
            = (Some (parsed ''old text''), False)
        \<and> IndexFile (world_of ''old text'' unit_provider MkdirAllFails) (fixed_cfg 512 128)
              idx1 ''notes.txt'' False
            = Some (Err ''open: no such file or directory'', idx1)
    | _ \<Rightarrow> False)"
  by (simp add: IndexFile_def needsReindex_def loadCachedDocument_def loadCachedChunks_def
      FileHash_def cacheDocument_def ChunkDocument_def CreateEmbeddings_def
      CreateEmbeddings_loop.simps len_bytes_def utf8_len_def world_of_def
      ParseDocument_def parseText_def Ext_def ToLower_def Base_def dropCR_def
      MaxScanTokenSize_def parsed_def format_int_def sha256_table_def unit_provider_def
      new_indexer_def fixed_cfg_def chunkFixed_def chunkFixed_loop.simps Let_def slice_def
      new_chunk_def TrimSpace_def IsSpace_def runes_of_def)

text \<open>
  When it is the chunk file alone that could not be created, the document file is in
  the cache directory and the error outlives the process: a new indexer, whose
  \<open>docCache\<close> is empty, finds the document through \<open>loadCachedDocument\<close> and returns the
  same error, although the cache directory can be written again.
\<close>

lemma IndexFile_missing_chunk_file_survives_restart:
  "(case IndexFile (world_of ''old text'' unit_provider CreateChunksFails) (fixed_cfg 512 128)
           new_indexer ''notes.txt'' False of
      Some (Ok chunks, idx1) \<Rightarrow>
        map Content chunks = [runes_of ''old text'']
        \<and> IndexFile (world_of ''old text'' unit_provider NoFault) (fixed_cfg 512 128)
              (new_indexer\<lparr>cache_docs := cache_docs idx1, cache_chunks := cache_chunks idx1\<rparr>)
              ''notes.txt'' False
            = Some (Err ''open: no such file or directory'',
                    new_indexer\<lparr>cache_docs := cache_docs idx1, cache_chunks := cache_chunks idx1\<rparr>)
    | _ \<Rightarrow> False)"
  by (simp add: IndexFile_def needsReindex_def loadCachedDocument_def loadCachedChunks_def
      FileHash_def cacheDocument_def ChunkDocument_def CreateEmbeddings_def
      CreateEmbeddings_loop.simps len_bytes_def utf8_len_def world_of_def
      ParseDocument_def parseText_def Ext_def ToLower_def Base_def dropCR_def
      MaxScanTokenSize_def parsed_def format_int_def sha256_table_def unit_provider_def
      new_indexer_def fixed_cfg_def chunkFixed_def chunkFixed_loop.simps Let_def slice_def
      new_chunk_def TrimSpace_def IsSpace_def runes_of_def)

section \<open>The update path\<close>

text \<open>
  Claim C1 at a failing input.  The file \<open>notes.txt\<close> is created with the text
  \<open>old text\<close> and the watcher's timer fires; the file is then rewritten to \<open>new text\<close>
  and the timer fires again.  Nothing fails.  After the second update the store holds
  the chunk of the old version next to the chunk of the new one, under the keys made
  from the two digests, and a \<open>Search\<close> returns both: two results with the same source
  file and different content.
\<close>

theorem handleFileChange_keeps_stale_chunks:
  "(case handleFileChange (world_of ''old text'' unit_provider NoFault) (fixed_cfg 512 128)
           no_faults new_system ''notes.txt'' of
      Some (Ok sys1) \<Rightarrow>
        (case handleFileChange (world_of ''new text'' unit_provider NoFault) (fixed_cfg 512 128)
                no_faults sys1 ''notes.txt'' of
           Some (Ok sys2) \<Rightarrow> store sys2 = two_version_store
         | _ \<Rightarrow> False)
    | _ \<Rightarrow> False)
   \<and> Search dot two_version_store [1, 0] 2 0
        (Ok [result_of dot [1, 0] (stored_chunk ''new text''),
             result_of dot [1, 0] (stored_chunk ''old text'')])
   \<and> Content (stored_chunk ''new text'') = runes_of ''new text''
   \<and> Content (stored_chunk ''old text'') = runes_of ''old text''
   \<and> map_of (Metadata (stored_chunk ''new text'')) ''source'' = Some (MString ''notes.txt'')
   \<and> map_of (Metadata (stored_chunk ''old text'')) ''source'' = Some (MString ''notes.txt'')"
proof (intro conjI)
  show "(case handleFileChange (world_of ''old text'' unit_provider NoFault) (fixed_cfg 512 128)
           no_faults new_system ''notes.txt'' of
      Some (Ok sys1) \<Rightarrow>
        (case handleFileChange (world_of ''new text'' unit_provider NoFault) (fixed_cfg 512 128)
                no_faults sys1 ''notes.txt'' of
           Some (Ok sys2) \<Rightarrow> store sys2 = two_version_store
         | _ \<Rightarrow> False)
    | _ \<Rightarrow> False)"
    by (simp add: handleFileChange_def handleFileUpdate_def IndexFile_def needsReindex_def
        loadCachedDocument_def loadCachedChunks_def FileHash_def cacheDocument_def
        ChunkDocument_def CreateEmbeddings_def CreateEmbeddings_loop.simps len_bytes_def
        utf8_len_def world_of_def ParseDocument_def parseText_def Ext_def ToLower_def
        Base_def dropCR_def MaxScanTokenSize_def sha256_table_def unit_provider_def
        new_indexer_def fixed_cfg_def chunkFixed_def chunkFixed_loop.simps Let_def slice_def
        new_chunk_def TrimSpace_def IsSpace_def runes_of_def AddChunks_def
        no_faults_def new_system_def empty_store_def two_version_store_def stored_chunk_def
        chunk_key_def format_int_def)
  show "Search dot two_version_store [1, 0] 2 0
        (Ok [result_of dot [1, 0] (stored_chunk ''new text''),
             result_of dot [1, 0] (stored_chunk ''old text'')])"
    by (rule Search_runI[where
          ks = "[ID (stored_chunk ''new text''), ID (stored_chunk ''old text'')]"
          and results = "[result_of dot [1, 0] (stored_chunk ''new text''),
             result_of dot [1, 0] (stored_chunk ''old text'')]"])
       (auto simp: two_version_store_def stored_chunk_def sha256_table_def sort_Slice_def dot_def
          top_k_def result_of_def score_less_def runes_of_def)
qed (simp_all add: stored_chunk_def)

end
